theory Spec2Isabelle
  imports Main "HOL-Library.Sublist" "HOL-Library.Multiset"
begin

section \<open>Go strings\<close>

text \<open>
  A Go string is a sequence of bytes; it is modelled as a \<^typ>\<open>string\<close>. The functions
  of packages \<^verbatim>\<open>strings\<close> and \<^verbatim>\<open>path\<close> that \<^verbatim>\<open>storage/copy.go\<close> calls are written
  out here. An index is an \<^typ>\<open>int\<close>, because \<^verbatim>\<open>strings.Index\<close> answers \<^verbatim>\<open>-1\<close> when
  there is no occurrence.
\<close>

definition HasPrefix :: "string \<Rightarrow> string \<Rightarrow> bool" where
  "HasPrefix s p = prefix p s"

definition HasSuffix :: "string \<Rightarrow> string \<Rightarrow> bool" where
  "HasSuffix s p = suffix p s"

fun Index :: "string \<Rightarrow> string \<Rightarrow> int" where
  "Index [] sep = (if sep = [] then 0 else -1)"
| "Index (c # s) sep =
     (if prefix sep (c # s) then 0
      else (let i = Index s sep in if i < 0 then -1 else i + 1))"

definition Contains :: "string \<Rightarrow> string \<Rightarrow> bool" where
  "Contains s sub = (0 \<le> Index s sub)"

text \<open>\<^verbatim>\<open>strings.Replace(s, old, new, 1)\<close>: only the first occurrence is replaced.\<close>

definition Replace1 :: "string \<Rightarrow> string \<Rightarrow> string \<Rightarrow> string" where
  "Replace1 s old new =
     (let i = Index s old
      in if i < 0 then s else take (nat i) s @ new @ drop (nat i + length old) s)"

fun LastIndexByte :: "string \<Rightarrow> char \<Rightarrow> int" where
  "LastIndexByte [] c = -1"
| "LastIndexByte (x # s) c =
     (let i = LastIndexByte s c
      in if 0 \<le> i then i + 1 else if x = c then 0 else -1)"

text \<open>\<^verbatim>\<open>path.Split\<close> cuts right after the last slash.\<close>

definition path_Split :: "string \<Rightarrow> string \<times> string" where
  "path_Split p =
     (let i = LastIndexByte p (CHR ''/'')
      in (take (nat (i + 1)) p, drop (nat (i + 1)) p))"

section \<open>Canonical paths\<close>

definition urlPath :: "string \<Rightarrow> string" where
  "urlPath URL =
     (let schemaPosition = Index URL ''://'';
          result = (if schemaPosition \<noteq> -1 then drop (nat (schemaPosition + 3)) URL else URL);
          pathRoot = Index result ''/'';
          result = (if 0 < pathRoot then drop (nat pathRoot) result else result);
          result = (if HasSuffix result ''/'' then take (length result - 1) result else result)
      in result)"

text \<open>The last step of \<^const>\<open>urlPath\<close> on its own: one trailing slash is cut.\<close>

definition trimSlash :: "string \<Rightarrow> string" where
  "trimSlash s = (if HasSuffix s ''/'' then take (length s - 1) s else s)"

section \<open>Objects, services and handlers\<close>

text \<open>
  An \<^verbatim>\<open>error\<close> is modelled by its message and a possibly nil error by an option. An
  \<^verbatim>\<open>io.Reader\<close> is modelled by what reading it to its end gives: the bytes, or the
  read error.
\<close>

type_synonym error = string
type_synonym bytes = string
type_synonym reader = "error + bytes"

definition ReadAll :: "reader \<Rightarrow> error + bytes" where
  "ReadAll reader = reader"

definition NewReader :: "bytes \<Rightarrow> reader" where
  "NewReader content = Inr content"

record FileInfo =
  fileName :: string
  fileSize :: nat

text \<open>
  Modelled from the spec: the \<^verbatim>\<open>Object\<close> interface, which \<^verbatim>\<open>storage/copy.go\<close> uses and
  does not declare. An object has a URL and file metadata and is either a folder or content,
  never both (section 3: "mutually exclusive classification; invariant: exactly one is
  true"), so \<^verbatim>\<open>IsContent\<close> is the negation of \<^verbatim>\<open>IsFolder\<close>.
\<close>

record Object =
  URL :: string
  IsFolder :: bool
  FileInfo :: FileInfo

definition IsContent :: "Object \<Rightarrow> bool" where
  "IsContent object = (\<not> IsFolder object)"

text \<open>
  Modelled from the spec: the \<^verbatim>\<open>Service\<close> interface (section 4.1), which
  \<^verbatim>\<open>storage/copy.go\<close> uses and does not declare. Every backend keeps its data in a world
  \<^typ>\<open>'w\<close> that each
  operation reads and may change; two services over the same world may alias.
  \<^verbatim>\<open>StorageObject\<close> answers \<^const>\<open>None\<close> where the Go method returns a nil object: the
  engine ignores the error beside it.
\<close>

record 'w Service =
  List :: "string \<Rightarrow> 'w \<Rightarrow> (error + Object list) \<times> 'w"
  Download :: "Object \<Rightarrow> 'w \<Rightarrow> (error + reader) \<times> 'w"
  Upload :: "string \<Rightarrow> reader \<Rightarrow> 'w \<Rightarrow> error option \<times> 'w"
  StorageObject :: "string \<Rightarrow> 'w \<Rightarrow> Object option \<times> 'w"

type_synonym 'w CopyHandler =
  "Object \<Rightarrow> reader \<Rightarrow> 'w Service \<Rightarrow> string \<Rightarrow> 'w \<Rightarrow> error option \<times> 'w"

type_synonym 'w ModificationHandler = "reader \<Rightarrow> 'w \<Rightarrow> (error + reader) \<times> 'w"

text \<open>
  The functions of package \<^verbatim>\<open>toolbox\<close> that the engine calls are defined outside
  \<^verbatim>\<open>storage/copy.go\<close>; the engine takes them as a parameter.
\<close>

record toolbox =
  URLPathJoin :: "string \<Rightarrow> string \<Rightarrow> string"
  URLSplit :: "string \<Rightarrow> string \<times> string"

text \<open>
  What the engine does to its collaborators is the sequence of calls it makes, each with
  its answer. The model returns that sequence beside the error and the final world.
\<close>

datatype call =
    ListCall string "error + Object list"
  | DownloadCall Object "error + reader"
  | ModifyCall bytes "error + reader"
  | StorageObjectCall string "Object option"
  | HandlerCall Object reader string "error option"

type_synonym 'w outcome = "error option \<times> 'w \<times> call list"

section \<open>The copy engine\<close>

text \<open>Lines 48 to 55: a folder that is the root, or the folder being listed, is skipped.\<close>

definition skipObject :: "toolbox \<Rightarrow> string \<Rightarrow> string \<Rightarrow> Object \<Rightarrow> bool" where
  "skipObject tb sourceURL subPath object =
     (let sourceURLPath = urlPath sourceURL;
          objectURLPath = urlPath (URL object)
      in IsFolder object \<and>
         (sourceURLPath = objectURLPath \<or>
          (subPath \<noteq> [] \<and> objectURLPath = URLPathJoin tb sourceURLPath subPath)))"

text \<open>
  Lines 57 to 62. The variable \<^verbatim>\<open>objectRelativePath\<close> is declared before the loop, so
  when the object's path is not longer than the root's it keeps the value the previous
  iteration left.
\<close>

definition relativePath :: "string \<Rightarrow> string \<Rightarrow> string \<Rightarrow> string" where
  "relativePath sourceURLPath objectURLPath objectRelativePath =
     (if length sourceURLPath < length objectURLPath then
        (let r = drop (length sourceURLPath) objectURLPath
         in if HasPrefix r ''/'' then drop 1 r else r)
      else objectRelativePath)"

text \<open>Lines 63 to 66.\<close>

definition destinationObject :: "toolbox \<Rightarrow> string \<Rightarrow> string \<Rightarrow> string" where
  "destinationObject tb destinationURL objectRelativePath =
     (if objectRelativePath \<noteq> [] then URLPathJoin tb destinationURL objectRelativePath
      else destinationURL)"

text \<open>Lines 75 to 88: the content is read whole and handed to the modification handler.\<close>

definition modifyContent ::
  "'w ModificationHandler option \<Rightarrow> Object \<Rightarrow> string \<Rightarrow> reader \<Rightarrow> 'w \<Rightarrow>
     (error + reader) \<times> 'w \<times> call list" where
  "modifyContent modifyContentHandler object destinationObjectURL reader w =
     (case modifyContentHandler of
        None \<Rightarrow> (Inr reader, w, [])
      | Some handler \<Rightarrow>
          (case ReadAll reader of
             Inl err \<Rightarrow> (Inl err, w, [])
           | Inr content \<Rightarrow>
               (case handler (NewReader content) w of
                  (Inl err, w') \<Rightarrow>
                    (Inl (''unable modify content, '' @ URL object @ '' '' @
                          destinationObjectURL @ '' '' @ err),
                     w', [ModifyCall content (Inl err)])
                | (Inr reader', w') \<Rightarrow> (Inr reader', w', [ModifyCall content (Inr reader')]))))"

text \<open>Lines 90 to 104: the destination of a content object of the first listing.\<close>

definition topLevelDestination ::
  "toolbox \<Rightarrow> 'w Service \<Rightarrow> string \<Rightarrow> Object \<Rightarrow> string \<Rightarrow> 'w \<Rightarrow> string \<times> 'w \<times> call list" where
  "topLevelDestination tb destinationService destinationURL object destinationObjectURL w =
     (let sourceName = snd (path_Split (URL object));
          destinationName = snd (path_Split destinationURL)
      in if HasSuffix destinationObjectURL ''/'' then
           (URLPathJoin tb destinationObjectURL sourceName, w, [])
         else
           (case StorageObject destinationService destinationObjectURL w of
              (found, w') \<Rightarrow>
                ((if (case found of None \<Rightarrow> False | Some d \<Rightarrow> IsFolder d) then
                    URLPathJoin tb destinationObjectURL sourceName
                  else if destinationName \<noteq> sourceName then
                    (if \<not> Contains destinationName ''.'' then
                       URLPathJoin tb destinationURL sourceName
                     else destinationObjectURL)
                  else destinationObjectURL),
                 w', [StorageObjectCall destinationObjectURL found])))"

text \<open>Lines 67 to 110: one content object is downloaded, modified and handed over.\<close>

definition copyContent ::
  "toolbox \<Rightarrow> 'w Service \<Rightarrow> 'w Service \<Rightarrow> string \<Rightarrow> 'w ModificationHandler option \<Rightarrow>
     string \<Rightarrow> 'w CopyHandler \<Rightarrow> Object \<Rightarrow> string \<Rightarrow> 'w \<Rightarrow> 'w outcome" where
  "copyContent tb sourceService destinationService destinationURL modifyContentHandler
       subPath copyHandler object destinationObjectURL w =
     (case Download sourceService object w of
        (Inl err, w1) \<Rightarrow>
          (Some (''unable download, '' @ URL object @ '' -> '' @ destinationObjectURL @
                 '', '' @ err),
           w1, [DownloadCall object (Inl err)])
      | (Inr reader, w1) \<Rightarrow>
          (case modifyContent modifyContentHandler object destinationObjectURL reader w1 of
             (Inl err, w2, cs2) \<Rightarrow> (Some err, w2, DownloadCall object (Inr reader) # cs2)
           | (Inr reader', w2, cs2) \<Rightarrow>
               (case (if subPath = [] then
                        topLevelDestination tb destinationService destinationURL object
                          destinationObjectURL w2
                      else (destinationObjectURL, w2, [])) of
                  (destinationObjectURL', w3, cs3) \<Rightarrow>
                    (case copyHandler object reader' destinationService destinationObjectURL' w3 of
                       (err, w4) \<Rightarrow>
                         (err, w4,
                          DownloadCall object (Inr reader) # cs2 @ cs3 @
                          [HandlerCall object reader' destinationObjectURL' err])))))"

text \<open>
  The rest of an outcome: nothing more happens after an error, and the calls of what
  follows come after the calls made so far. \<^const>\<open>None\<close> is a walk that does not return.
\<close>

definition andThen :: "'w outcome option \<Rightarrow> ('w \<Rightarrow> 'w outcome option) \<Rightarrow> 'w outcome option" where
  "andThen m k =
     (case m of
        None \<Rightarrow> None
      | Some (Some err, w, cs) \<Rightarrow> Some (Some err, w, cs)
      | Some (None, w, cs) \<Rightarrow>
          (case k w of
             None \<Rightarrow> None
           | Some (r, w', cs') \<Rightarrow> Some (r, w', cs @ cs')))"

text \<open>
  Lines 45 to 118: the loop over the listed objects. Its state is the variable
  \<^verbatim>\<open>objectRelativePath\<close> and the world; \<open>recurse\<close> is the recursive call of line 113, as
  a function of the sub path.
\<close>

fun copyObjects ::
  "toolbox \<Rightarrow> (string \<Rightarrow> 'w \<Rightarrow> 'w outcome option) \<Rightarrow> 'w Service \<Rightarrow> string \<Rightarrow> 'w Service \<Rightarrow>
     string \<Rightarrow> 'w ModificationHandler option \<Rightarrow> string \<Rightarrow> 'w CopyHandler \<Rightarrow> string \<Rightarrow>
     Object list \<Rightarrow> 'w \<Rightarrow> 'w outcome option" where
  "copyObjects tb recurse sourceService sourceURL destinationService destinationURL
       modifyContentHandler subPath copyHandler objectRelativePath [] w = Some (None, w, [])"
| "copyObjects tb recurse sourceService sourceURL destinationService destinationURL
       modifyContentHandler subPath copyHandler objectRelativePath (object # objects) w =
     (if skipObject tb sourceURL subPath object then
        copyObjects tb recurse sourceService sourceURL destinationService destinationURL
          modifyContentHandler subPath copyHandler objectRelativePath objects w
      else
        (let objectRelativePath' =
               relativePath (urlPath sourceURL) (urlPath (URL object)) objectRelativePath;
             destinationObjectURL = destinationObject tb destinationURL objectRelativePath'
         in andThen
              (if IsContent object then
                 Some (copyContent tb sourceService destinationService destinationURL
                         modifyContentHandler subPath copyHandler object destinationObjectURL w)
               else recurse objectRelativePath' w)
              (copyObjects tb recurse sourceService sourceURL destinationService destinationURL
                 modifyContentHandler subPath copyHandler objectRelativePath' objects)))"

text \<open>
  Lines 34 to 120. The recursion follows what the source service lists, so nothing
  bounds its depth: the first argument is the number of nested calls allowed, and the
  answer is \<^const>\<open>None\<close> when they do not suffice.
\<close>

fun copyStorageContent ::
  "nat \<Rightarrow> toolbox \<Rightarrow> 'w Service \<Rightarrow> string \<Rightarrow> 'w Service \<Rightarrow> string \<Rightarrow>
     'w ModificationHandler option \<Rightarrow> string \<Rightarrow> 'w CopyHandler \<Rightarrow> 'w \<Rightarrow> 'w outcome option" where
  "copyStorageContent 0 tb sourceService sourceURL destinationService destinationURL
       modifyContentHandler subPath copyHandler w = None"
| "copyStorageContent (Suc fuel) tb sourceService sourceURL destinationService destinationURL
       modifyContentHandler subPath copyHandler w =
     (let sourceListURL = (if subPath \<noteq> [] then URLPathJoin tb sourceURL subPath else sourceURL)
      in case List sourceService sourceListURL w of
           (Inl err, w') \<Rightarrow> Some (Some err, w', [ListCall sourceListURL (Inl err)])
         | (Inr objects, w') \<Rightarrow>
             andThen (Some (None, w', [ListCall sourceListURL (Inr objects)]))
               (copyObjects tb
                  (\<lambda>subPath'. copyStorageContent fuel tb sourceService sourceURL
                     destinationService destinationURL modifyContentHandler subPath' copyHandler)
                  sourceService sourceURL destinationService destinationURL
                  modifyContentHandler subPath copyHandler [] objects))"

text \<open>Lines 122 to 128: the handler used when the caller gives none.\<close>

definition copySourceToDestination :: "'w CopyHandler" where
  "copySourceToDestination sourceObject reader destinationService destinationURL w =
     (case Upload destinationService destinationURL reader w of
        (None, w') \<Rightarrow> (None, w')
      | (Some err, w') \<Rightarrow>
          (Some (''unable upload, '' @ URL sourceObject @ '' '' @ destinationURL @ '' '' @ err),
           w'))"

text \<open>Lines 154 to 163.\<close>

definition Copy ::
  "nat \<Rightarrow> toolbox \<Rightarrow> 'w Service \<Rightarrow> string \<Rightarrow> 'w Service \<Rightarrow> string \<Rightarrow>
     'w ModificationHandler option \<Rightarrow> 'w CopyHandler option \<Rightarrow> 'w \<Rightarrow> 'w outcome option" where
  "Copy fuel tb sourceService sourceURL destinationService destinationURL modifyContentHandler
       copyHandler w =
     (let copyHandler' = (case copyHandler of None \<Rightarrow> copySourceToDestination | Some h \<Rightarrow> h)
      in case copyStorageContent fuel tb sourceService sourceURL destinationService
                destinationURL modifyContentHandler [] copyHandler' w of
           None \<Rightarrow> None
         | Some (None, w', cs) \<Rightarrow> Some (None, w', cs)
         | Some (Some err, w', cs) \<Rightarrow>
             Some (Some (''failed to copy '' @ sourceURL @ '' -> '' @ destinationURL @ '': '' @ err),
                   w', cs))"

section \<open>What a sequence of calls tells\<close>

text \<open>A call succeeded when its answer carries no error.\<close>

fun succeeded :: "call \<Rightarrow> bool" where
  "succeeded (ListCall u r) = (case r of Inl err \<Rightarrow> False | Inr objects \<Rightarrow> True)"
| "succeeded (DownloadCall object r) = (case r of Inl err \<Rightarrow> False | Inr reader \<Rightarrow> True)"
| "succeeded (ModifyCall content r) = (case r of Inl err \<Rightarrow> False | Inr reader \<Rightarrow> True)"
| "succeeded (StorageObjectCall u r) = True"
| "succeeded (HandlerCall object reader u r) = (case r of Some err \<Rightarrow> False | None \<Rightarrow> True)"

text \<open>The content objects that the listings returned, listing after listing.\<close>

fun listedContent :: "call list \<Rightarrow> Object list" where
  "listedContent [] = []"
| "listedContent (ListCall u (Inr objects) # cs) = filter IsContent objects @ listedContent cs"
| "listedContent (c # cs) = listedContent cs"

text \<open>The objects given to the copy handler, with the reader and the destination.\<close>

fun handled :: "call list \<Rightarrow> (Object \<times> reader \<times> string) list" where
  "handled [] = []"
| "handled (HandlerCall object reader u r # cs) = (object, reader, u) # handled cs"
| "handled (c # cs) = handled cs"



text \<open>
  A walk stops at its first failure when every call but the last succeeded, and the last
  one too if the walk answers without an error.
\<close>

definition stopsAtFailure :: "error option \<Rightarrow> call list \<Rightarrow> bool" where
  "stopsAtFailure r cs = (list_all succeeded (butlast cs) \<and> (r = None \<longrightarrow> list_all succeeded cs))"

text \<open>
  The objects given to the handler, counted with their multiplicity, against the
  content objects listed (and those of \<open>pending\<close>, listed before): only content is
  given, nothing is given more often than it was listed, and all of it is given when the
  walk answers without an error.
\<close>

definition handledOnce :: "Object list \<Rightarrow> error option \<Rightarrow> call list \<Rightarrow> bool" where
  "handledOnce pending r cs =
     (let given = map fst (handled cs); listed = pending @ listedContent cs
      in list_all IsContent given \<and> mset given \<subseteq># mset listed \<and>
         (r = None \<longrightarrow> mset given = mset listed))"

section \<open>The archive engine\<close>

text \<open>
  Package \<^verbatim>\<open>archive/zip\<close> belongs to the Go library. Of a file header the name and the
  method matter here; a writer is the list of the entries created so far, each with the
  bytes copied into it, and it refuses a new entry once closed.
\<close>

record FileHeader =
  Name :: string
  Method :: nat
  UncompressedSize64 :: nat

definition Store :: nat where
  "Store = 0"

definition Deflate :: nat where
  "Deflate = 8"

record zip_Writer =
  entries :: "(FileHeader \<times> bytes) list"
  closed :: bool

definition FileInfoHeader :: "FileInfo \<Rightarrow> error + FileHeader" where
  "FileInfoHeader fi = Inr \<lparr>Name = fileName fi, Method = Store, UncompressedSize64 = fileSize fi\<rparr>"

definition CreateHeader :: "FileHeader \<Rightarrow> zip_Writer \<Rightarrow> error + zip_Writer" where
  "CreateHeader header a =
     (if closed a then Inl ''zip: write to closed file''
      else Inr (a\<lparr>entries := entries a @ [(header, [])]\<rparr>))"

text \<open>\<^verbatim>\<open>io.Copy\<close> into the entry that \<^const>\<open>CreateHeader\<close> has just opened, the last one.\<close>

definition io_Copy :: "zip_Writer \<Rightarrow> reader \<Rightarrow> error option \<times> zip_Writer" where
  "io_Copy a reader =
     (case reader of
        Inl err \<Rightarrow> (Some err, a)
      | Inr content \<Rightarrow>
          (None, a\<lparr>entries := butlast (entries a) @ [(fst (last (entries a)), content)]\<rparr>))"

text \<open>
  Modelled from the spec: \<^verbatim>\<open>NewMemoryService\<close>, which is defined outside
  \<^verbatim>\<open>storage/copy.go\<close>. An in-memory store keeps the bytes uploaded under each URL, the latest first. It answers
  as section 4.1 asks: \<^verbatim>\<open>Upload\<close> writes the whole stream and creates the parents as
  needed, so a folder is there as soon as something lies below it; \<^verbatim>\<open>StorageObject\<close>
  finds what a URL names, or nothing; \<^verbatim>\<open>List\<close> gives the object itself for a content
  URL and fails on a URL that names nothing. The service is written over any world
  that holds such a store.
\<close>

type_synonym store = "(string \<times> bytes) list"

definition memoryObject :: "string \<Rightarrow> bool \<Rightarrow> Object" where
  "memoryObject u folder =
     \<lparr>URL = u, IsFolder = folder, FileInfo = \<lparr>fileName = snd (path_Split u), fileSize = 0\<rparr>\<rparr>"

definition memoryLookup :: "store \<Rightarrow> string \<Rightarrow> Object option" where
  "memoryLookup m u =
     (if map_of m u \<noteq> None then Some (memoryObject u False)
      else if list_ex (\<lambda>k. prefix (u @ ''/'') k) (map fst m) then Some (memoryObject u True)
      else None)"

text \<open>The immediate children of a folder: the first segments of what lies below it.\<close>

definition memoryChildren :: "store \<Rightarrow> string \<Rightarrow> Object list" where
  "memoryChildren m u =
     List.map_filter (\<lambda>name. memoryLookup m (u @ ''/'' @ name))
       (remdups (map (\<lambda>k. takeWhile (\<lambda>c. c \<noteq> CHR ''/'') (drop (length u + 1) k))
          (filter (\<lambda>k. prefix (u @ ''/'') k) (map fst m))))"

definition memoryService :: "('w \<Rightarrow> store) \<Rightarrow> ((store \<Rightarrow> store) \<Rightarrow> 'w \<Rightarrow> 'w) \<Rightarrow> 'w Service" where
  "memoryService get change =
     \<lparr>List = (\<lambda>u w.
        (case memoryLookup (get w) u of
           None \<Rightarrow> Inl (''not found: '' @ u)
         | Some object \<Rightarrow>
             if IsFolder object then Inr (memoryChildren (get w) u) else Inr [object], w)),
      Download = (\<lambda>object w.
        (case map_of (get w) (URL object) of
           None \<Rightarrow> Inl (''not found: '' @ URL object)
         | Some content \<Rightarrow> Inr (Inr content), w)),
      Upload = (\<lambda>u reader w.
        (case reader of
           Inl err \<Rightarrow> (Some err, w)
         | Inr content \<Rightarrow> (None, change (\<lambda>m. (u, content) # m) w))),
      StorageObject = (\<lambda>u w. (memoryLookup (get w) u, w))\<rparr>"

text \<open>
  The world of one \<^verbatim>\<open>Archive\<close> call: the world of the backend that is archived, the zip
  writer, and the store of the memory service that the call creates.
\<close>

record 'w archiveWorld =
  backend :: 'w
  archive :: zip_Writer
  memory :: store

definition onBackend :: "'w Service \<Rightarrow> 'w archiveWorld Service" where
  "onBackend service =
     \<lparr>List = (\<lambda>u w. case List service u (backend w) of (r, b) \<Rightarrow> (r, w\<lparr>backend := b\<rparr>)),
      Download = (\<lambda>object w.
        case Download service object (backend w) of (r, b) \<Rightarrow> (r, w\<lparr>backend := b\<rparr>)),
      Upload = (\<lambda>u reader w.
        case Upload service u reader (backend w) of (r, b) \<Rightarrow> (r, w\<lparr>backend := b\<rparr>)),
      StorageObject = (\<lambda>u w.
        case StorageObject service u (backend w) of (r, b) \<Rightarrow> (r, w\<lparr>backend := b\<rparr>))\<rparr>"

definition NewMemoryService :: "'w archiveWorld Service" where
  "NewMemoryService = memoryService memory memory_update"

text \<open>Lines 130 to 151. The writer \<^verbatim>\<open>archive\<close> that the closure holds is the one of the world.\<close>

definition getArchiveCopyHandler :: "toolbox \<Rightarrow> string \<Rightarrow> 'w archiveWorld CopyHandler" where
  "getArchiveCopyHandler tb parentURL sourceObject reader destinationService destinationURL w =
     (let relativePath = snd (URLSplit tb destinationURL);
          relativePath = (if destinationURL \<noteq> parentURL
                          then Replace1 destinationURL parentURL [] else relativePath)
      in case FileInfoHeader (FileInfo sourceObject) of
           Inl err \<Rightarrow> (Some err, w)
         | Inr header \<Rightarrow>
             (let header = header\<lparr>Method := Deflate\<rparr>;
                  header = header\<lparr>Name := relativePath\<rparr>
              in case CreateHeader header (archive w) of
                   Inl err \<Rightarrow> (Some err, w)
                 | Inr writer \<Rightarrow>
                     (case io_Copy writer reader of (err, a) \<Rightarrow> (err, w\<lparr>archive := a\<rparr>))))"

text \<open>Lines 172 to 198.\<close>

definition getArchiveCopyHandlerWithFilter ::
  "toolbox \<Rightarrow> string \<Rightarrow> (Object \<Rightarrow> bool) \<Rightarrow> 'w archiveWorld CopyHandler" where
  "getArchiveCopyHandlerWithFilter tb parentURL predicate sourceObject reader destinationService
       destinationURL w =
     (if \<not> predicate sourceObject then (None, w)
      else
        (let relativePath = snd (URLSplit tb destinationURL);
             relativePath = (if destinationURL \<noteq> parentURL
                             then Replace1 destinationURL parentURL [] else relativePath)
         in case FileInfoHeader (FileInfo sourceObject) of
              Inl err \<Rightarrow> (Some err, w)
            | Inr header \<Rightarrow>
                (let header = header\<lparr>Method := Store\<rparr>;
                     relativePath = (if HasPrefix relativePath ''/''
                                     then drop 1 relativePath else relativePath);
                     header = header\<lparr>Name := relativePath\<rparr>
                 in case CreateHeader header (archive w) of
                      Inl err \<Rightarrow> (Some err, w)
                    | Inr writer \<Rightarrow>
                        (case io_Copy writer reader of (err, a) \<Rightarrow> (err, w\<lparr>archive := a\<rparr>)))))"

text \<open>
  Lines 166 to 170 and 201 to 205. The answer gives the error, the world of the backend,
  the writer and the calls of the walk.
\<close>

type_synonym 'w archived = "error option \<times> 'w \<times> zip_Writer \<times> call list"

definition archiveOutcome :: "'w archiveWorld outcome option \<Rightarrow> 'w archived option" where
  "archiveOutcome r =
     (case r of None \<Rightarrow> None | Some (err, w, cs) \<Rightarrow> Some (err, backend w, archive w, cs))"

definition Archive ::
  "nat \<Rightarrow> toolbox \<Rightarrow> 'w Service \<Rightarrow> string \<Rightarrow> zip_Writer \<Rightarrow> 'w \<Rightarrow> 'w archived option" where
  "Archive fuel tb service u writer w =
     (let memService = NewMemoryService;
          destURL = ''mem:///dev/nul''
      in archiveOutcome
           (Copy fuel tb (onBackend service) u memService destURL None
              (Some (getArchiveCopyHandler tb destURL))
              \<lparr>backend = w, archive = writer, memory = []\<rparr>))"

definition ArchiveWithFilter ::
  "nat \<Rightarrow> toolbox \<Rightarrow> 'w Service \<Rightarrow> string \<Rightarrow> zip_Writer \<Rightarrow> (Object \<Rightarrow> bool) \<Rightarrow> 'w \<Rightarrow>
     'w archived option" where
  "ArchiveWithFilter fuel tb service u writer predicate w =
     (let memService = NewMemoryService;
          destURL = ''mem:///dev/nul''
      in archiveOutcome
           (Copy fuel tb (onBackend service) u memService destURL None
              (Some (getArchiveCopyHandlerWithFilter tb destURL predicate))
              \<lparr>backend = w, archive = writer, memory = []\<rparr>))"

text \<open>
  What a call has written: the entries of the writer afterwards are those before and
  new ones behind them, all of the given method.
\<close>

definition written :: "nat \<Rightarrow> zip_Writer \<Rightarrow> zip_Writer \<Rightarrow> bool" where
  "written method a a' =
     (\<exists>new. entries a' = entries a @ new \<and> list_all (\<lambda>entry. Method (fst entry) = method) new)"

section \<open>The missing helpers and a source to copy from\<close>

text \<open>
  Modelled from the spec: \<^verbatim>\<open>toolbox.URLPathJoin\<close>, which is defined outside
  \<^verbatim>\<open>storage/copy.go\<close>. Section 4.3 describes it as a "scheme-aware concatenation that avoids duplicate separators":
  the segment follows the base with exactly one slash between them.
\<close>

definition pathJoin :: "string \<Rightarrow> string \<Rightarrow> string" where
  "pathJoin baseURL segment =
     (if segment = [] then baseURL
      else (if HasSuffix baseURL ''/'' then baseURL else baseURL @ ''/'') @
           (if HasPrefix segment ''/'' then drop 1 segment else segment))"

text \<open>
  Modelled from the spec: \<^verbatim>\<open>toolbox.URLSplit\<close>, which is defined outside
  \<^verbatim>\<open>storage/copy.go\<close>; the spec does not describe it. The handlers use its second answer, the name of the
  resource, and only for a destination that is the parent itself; it is taken to cut
  like \<^verbatim>\<open>path.Split\<close>.
\<close>

definition goToolbox :: toolbox where
  "goToolbox = \<lparr>URLPathJoin = pathJoin, URLSplit = path_Split\<rparr>"

text \<open>
  A read-only source given by two tables: what \<^verbatim>\<open>List\<close> answers for a URL, and the
  bytes of each content URL.
\<close>

definition tableService :: "(string \<times> Object list) list \<Rightarrow> (string \<times> bytes) list \<Rightarrow> 'w Service" where
  "tableService listings contents =
     \<lparr>List = (\<lambda>u w.
        (case map_of listings u of
           None \<Rightarrow> Inl (''not found: '' @ u)
         | Some objects \<Rightarrow> Inr objects, w)),
      Download = (\<lambda>object w.
        (case map_of contents (URL object) of
           None \<Rightarrow> Inl (''not found: '' @ URL object)
         | Some content \<Rightarrow> Inr (Inr content), w)),
      Upload = (\<lambda>u reader w. (Some ''read only'', w)),
      StorageObject = (\<lambda>u w. (None, w))\<rparr>"

section \<open>A small source and a destination\<close>

text \<open>The memory service over a world that is nothing but its store.\<close>

definition storeService :: "store Service" where
  "storeService = memoryService (\<lambda>m. m) (\<lambda>change. change)"

text \<open>
  The folder \<^verbatim>\<open>mem:///src\<close> with the file \<^verbatim>\<open>a.txt\<close> and the folder \<^verbatim>\<open>sub\<close>, which
  holds the file \<^verbatim>\<open>b.txt\<close>.
\<close>

definition aTxt :: Object where
  "aTxt = memoryObject ''mem:///src/a.txt'' False"

definition subDir :: Object where
  "subDir = memoryObject ''mem:///src/sub'' True"

definition bTxt :: Object where
  "bTxt = memoryObject ''mem:///src/sub/b.txt'' False"

definition srcListings :: "(string \<times> Object list) list" where
  "srcListings =
     [(''mem:///src'', [aTxt, subDir]),
      (''mem:///src/sub'', [bTxt]),
      (''mem:///src/a.txt'', [aTxt])]"

definition srcContents :: "(string \<times> bytes) list" where
  "srcContents = [(''mem:///src/a.txt'', ''hello''), (''mem:///src/sub/b.txt'', ''world'')]"

text \<open>The calls of the walk over that folder that fails to download \<^verbatim>\<open>b.txt\<close>.\<close>

definition failingCalls :: "call list" where
  "failingCalls =
     [ListCall ''mem:///src'' (Inr [aTxt, subDir]),
      DownloadCall aTxt (Inr (Inr ''hello'')),
      StorageObjectCall ''mem:///dst/a.txt'' None,
      HandlerCall aTxt (Inr ''hello'') ''mem:///dst/a.txt'' None,
      ListCall ''mem:///src/sub'' (Inr [bTxt]),
      DownloadCall bTxt (Inl ''not found: mem:///src/sub/b.txt'')]"

text \<open>The calls of the walk over that folder when nothing fails.\<close>

definition copiedCalls :: "call list" where
  "copiedCalls =
     [ListCall ''mem:///src'' (Inr [aTxt, subDir]),
      DownloadCall aTxt (Inr (Inr ''hello'')),
      StorageObjectCall ''mem:///dst/a.txt'' None,
      HandlerCall aTxt (Inr ''hello'') ''mem:///dst/a.txt'' None,
      ListCall ''mem:///src/sub'' (Inr [bTxt]),
      DownloadCall bTxt (Inr (Inr ''world'')),
      HandlerCall bTxt (Inr ''world'') ''mem:///dst/sub/b.txt'' None]"



text \<open>
  Listings that name the listed folder itself: the root in its own listing, and
  \<^verbatim>\<open>sub\<close> in the listing of \<^verbatim>\<open>sub\<close>.
\<close>

definition srcDir :: Object where
  "srcDir = memoryObject ''mem:///src'' True"

definition guardedListings :: "(string \<times> Object list) list" where
  "guardedListings =
     [(''mem:///src'', [srcDir, aTxt, subDir]),
      (''mem:///src/sub'', [subDir, bTxt])]"

definition guardedCalls :: "call list" where
  "guardedCalls =
     [ListCall ''mem:///src'' (Inr [srcDir, aTxt, subDir]),
      DownloadCall aTxt (Inr (Inr ''hello'')),
      StorageObjectCall ''mem:///dst/a.txt'' None,
      HandlerCall aTxt (Inr ''hello'') ''mem:///dst/a.txt'' None,
      ListCall ''mem:///src/sub'' (Inr [subDir, bTxt]),
      DownloadCall bTxt (Inr (Inr ''world'')),
      HandlerCall bTxt (Inr ''world'') ''mem:///dst/sub/b.txt'' None]"


text \<open>
  A listing of \<^verbatim>\<open>mem:///src\<close> that gives the content \<^verbatim>\<open>mem:///src/a.txt\<close> and then a
  content object whose URL is \<^verbatim>\<open>mem:///src\<close> itself, as a store of keyed blobs can
  hold both.
\<close>

definition srcFile :: Object where
  "srcFile = memoryObject ''mem:///src'' False"

definition staleListings :: "(string \<times> Object list) list" where
  "staleListings = [(''mem:///src'', [aTxt, srcFile])]"

definition staleContents :: "(string \<times> bytes) list" where
  "staleContents = [(''mem:///src'', ''root''), (''mem:///src/a.txt'', ''hello'')]"

definition staleCalls :: "call list" where
  "staleCalls =
     [ListCall ''mem:///src'' (Inr [aTxt, srcFile]),
      DownloadCall aTxt (Inr (Inr ''hello'')),
      StorageObjectCall ''mem:///dst.d/a.txt'' None,
      HandlerCall aTxt (Inr ''hello'') ''mem:///dst.d/a.txt'' None,
      DownloadCall srcFile (Inr (Inr ''root'')),
      StorageObjectCall ''mem:///dst.d/a.txt'' (Some (memoryObject ''mem:///dst.d/a.txt'' False)),
      HandlerCall srcFile (Inr ''root'') ''mem:///dst.d/a.txt'' None]"

text \<open>The calls of archiving that folder, and an entry of the archive.\<close>

definition archiveCalls :: "call list" where
  "archiveCalls =
     [ListCall ''mem:///src'' (Inr [aTxt, subDir]),
      DownloadCall aTxt (Inr (Inr ''hello'')),
      StorageObjectCall ''mem:///dev/nul/a.txt'' None,
      HandlerCall aTxt (Inr ''hello'') ''mem:///dev/nul/a.txt'' None,
      ListCall ''mem:///src/sub'' (Inr [bTxt]),
      DownloadCall bTxt (Inr (Inr ''world'')),
      HandlerCall bTxt (Inr ''world'') ''mem:///dev/nul/sub/b.txt'' None]"

definition zipEntry :: "string \<Rightarrow> nat \<Rightarrow> bytes \<Rightarrow> FileHeader \<times> bytes" where
  "zipEntry name method content = (\<lparr>Name = name, Method = method, UncompressedSize64 = 0\<rparr>, content)"

text \<open>
  A modification handler that always fails; the calls of a copy it stops, and the calls
  of a copy into a destination that refuses every upload.
\<close>

definition refuse :: "store ModificationHandler" where
  "refuse reader w = (Inl ''refused'', w)"

definition refusedCalls :: "call list" where
  "refusedCalls =
     [ListCall ''mem:///src'' (Inr [aTxt, subDir]),
      DownloadCall aTxt (Inr (Inr ''hello'')),
      ModifyCall ''hello'' (Inl ''refused'')]"

definition readOnlyCalls :: "call list" where
  "readOnlyCalls =
     [ListCall ''mem:///src'' (Inr [aTxt, subDir]),
      DownloadCall aTxt (Inr (Inr ''hello'')),
      StorageObjectCall ''mem:///dst/a.txt'' None,
      HandlerCall aTxt (Inr ''hello'') ''mem:///dst/a.txt''
        (Some ''unable upload, mem:///src/a.txt mem:///dst/a.txt read only'')]"


section \<open>Folder trees\<close>



















section \<open>Facts about the string functions\<close>

lemma Index_lower: "- 1 \<le> Index s sep"
  by (induction s) (auto simp: Let_def)

lemma Index_zero_iff: "Index s sep = 0 \<longleftrightarrow> prefix sep s"
proof (induction s)
  case Nil
  then show ?case by simp
next
  case (Cons c s)
  have "- 1 \<le> Index s sep" by (rule Index_lower)
  then show ?case by (auto simp: Let_def)
qed

lemma Index_byte_dropWhile:
  "0 \<le> Index s [c] \<Longrightarrow> drop (nat (Index s [c])) s = dropWhile (\<lambda>x. x \<noteq> c) s"
proof (induction s)
  case Nil
  then show ?case by simp
next
  case (Cons x s)
  show ?case
  proof (cases "x = c")
    case True
    then show ?thesis by simp
  next
    case False
    with Cons.prems have nn: "0 \<le> Index s [c]"
      by (simp add: Let_def split: if_splits)
    with Cons.IH have "drop (nat (Index s [c])) s = dropWhile (\<lambda>x. x \<noteq> c) s" by simp
    with False nn show ?thesis
      by (simp add: Let_def nat_add_distrib)
  qed
qed

section \<open>The canonical path of a URL\<close>

text \<open>
  Claim C10. A URL without the marker \<^verbatim>\<open>://\<close> that does not begin with a slash but holds
  one loses all that stands before its first slash: the first segment is taken for a
  host. A URL whose marker is followed at once by a slash (an empty host, as in
  \<^verbatim>\<open>mem:///src\<close>) keeps all that follows the marker. In both cases one trailing slash is
  cut at the end, which is all that \<^const>\<open>trimSlash\<close> does.
\<close>

theorem urlPath_host_segment:
  "(Index u ''://'' = - 1 \<and> \<not> HasPrefix u ''/'' \<and> Contains u ''/''
      \<longrightarrow> urlPath u = trimSlash (dropWhile (\<lambda>c. c \<noteq> CHR ''/'') u))
   \<and> (Index u' ''://'' = int k \<and> HasPrefix (drop (k + 3) u') ''/''
      \<longrightarrow> urlPath u' = trimSlash (drop (k + 3) u'))"
proof (intro conjI impI)
  assume h: "Index u ''://'' = - 1 \<and> \<not> HasPrefix u ''/'' \<and> Contains u ''/''"
  then have nn: "0 \<le> Index u ''/''" by (simp add: Contains_def)
  from h have "Index u ''/'' \<noteq> 0"
    by (simp add: Index_zero_iff HasPrefix_def)
  with nn have pos: "0 < Index u ''/''" by simp
  from nn have "drop (nat (Index u ''/'')) u = dropWhile (\<lambda>c. c \<noteq> CHR ''/'') u"
    by (rule Index_byte_dropWhile)
  with h pos show "urlPath u = trimSlash (dropWhile (\<lambda>c. c \<noteq> CHR ''/'') u)"
    by (simp add: urlPath_def trimSlash_def Let_def)
next
  assume h: "Index u' ''://'' = int k \<and> HasPrefix (drop (k + 3) u') ''/''"
  then have "Index (drop (k + 3) u') ''/'' = 0"
    by (simp add: Index_zero_iff HasPrefix_def)
  with h show "urlPath u' = trimSlash (drop (k + 3) u')"
    by (simp add: urlPath_def trimSlash_def Let_def nat_add_distrib)
qed

theorem urlPath_host_segment_witness:
  "urlPath ''host/path'' = ''/path'' \<and> urlPath ''mem:///src'' = ''/src''
   \<and> urlPath ''mem:///src/'' = ''/src''"
proof -
  have a: "Index ''host/path'' ''://'' = - 1 \<and> \<not> HasPrefix ''host/path'' ''/'' \<and>
      Contains ''host/path'' ''/''"
    by (simp add: HasPrefix_def Contains_def)
  have b: "Index ''mem:///src'' ''://'' = int 3 \<and> HasPrefix (drop (3 + 3) ''mem:///src'') ''/''"
    by (simp add: HasPrefix_def)
  have c: "Index ''mem:///src/'' ''://'' = int 3 \<and> HasPrefix (drop (3 + 3) ''mem:///src/'') ''/''"
    by (simp add: HasPrefix_def)
  have t1: "trimSlash (dropWhile (\<lambda>c. c \<noteq> CHR ''/'') ''host/path'') = ''/path''"
    by code_simp
  have t2: "trimSlash (drop (3 + 3) ''mem:///src'') = ''/src''" by code_simp
  have t3: "trimSlash (drop (3 + 3) ''mem:///src/'') = ''/src''" by code_simp
  from urlPath_host_segment [of "''host/path''" "''mem:///src''" 3] a b t1 t2
  have "urlPath ''host/path'' = ''/path'' \<and> urlPath ''mem:///src'' = ''/src''" by simp
  moreover from urlPath_host_segment [of "''host/path''" "''mem:///src/''" 3] c t3
  have "urlPath ''mem:///src/'' = ''/src''" by simp
  ultimately show ?thesis by simp
qed

section \<open>Reasoning about a walk\<close>

lemma andThenE:
  assumes "andThen m k = Some (r, w', cs)"
  obtains (stop) err where "m = Some (Some err, w', cs)" and "r = Some err"
    | (go) w1 cs1 cs2 where "m = Some (None, w1, cs1)" and "k w1 = Some (r, w', cs2)"
        and "cs = cs1 @ cs2"
  using assms by (auto simp: andThen_def split: option.splits prod.splits)

lemma copyObjects_ConsE:
  assumes "copyObjects tb recurse sourceService sourceURL destinationService destinationURL
             modifyContentHandler subPath copyHandler rel (object # objects) w = Some (r, w', cs)"
  obtains
    (skip) "skipObject tb sourceURL subPath object"
      and "copyObjects tb recurse sourceService sourceURL destinationService destinationURL
             modifyContentHandler subPath copyHandler rel objects w = Some (r, w', cs)"
  | (content_stop) err where "\<not> skipObject tb sourceURL subPath object" and "IsContent object"
      and "copyContent tb sourceService destinationService destinationURL modifyContentHandler
             subPath copyHandler object
             (destinationObject tb destinationURL
                (relativePath (urlPath sourceURL) (urlPath (URL object)) rel)) w
           = (Some err, w', cs)"
      and "r = Some err"
  | (content_go) w1 cs1 cs2 where "\<not> skipObject tb sourceURL subPath object"
      and "IsContent object"
      and "copyContent tb sourceService destinationService destinationURL modifyContentHandler
             subPath copyHandler object
             (destinationObject tb destinationURL
                (relativePath (urlPath sourceURL) (urlPath (URL object)) rel)) w
           = (None, w1, cs1)"
      and "copyObjects tb recurse sourceService sourceURL destinationService destinationURL
             modifyContentHandler subPath copyHandler
             (relativePath (urlPath sourceURL) (urlPath (URL object)) rel) objects w1
           = Some (r, w', cs2)"
      and "cs = cs1 @ cs2"
  | (folder_stop) err where "\<not> skipObject tb sourceURL subPath object" and "IsFolder object"
      and "recurse (relativePath (urlPath sourceURL) (urlPath (URL object)) rel) w
           = Some (Some err, w', cs)"
      and "r = Some err"
  | (folder_go) w1 cs1 cs2 where "\<not> skipObject tb sourceURL subPath object"
      and "IsFolder object"
      and "recurse (relativePath (urlPath sourceURL) (urlPath (URL object)) rel) w
           = Some (None, w1, cs1)"
      and "copyObjects tb recurse sourceService sourceURL destinationService destinationURL
             modifyContentHandler subPath copyHandler
             (relativePath (urlPath sourceURL) (urlPath (URL object)) rel) objects w1
           = Some (r, w', cs2)"
      and "cs = cs1 @ cs2"
proof (cases "skipObject tb sourceURL subPath object")
  case True
  with assms skip show ?thesis by simp
next
  case False
  with assms have "andThen
      (if IsContent object then
         Some (copyContent tb sourceService destinationService destinationURL
                 modifyContentHandler subPath copyHandler object
                 (destinationObject tb destinationURL
                    (relativePath (urlPath sourceURL) (urlPath (URL object)) rel)) w)
       else recurse (relativePath (urlPath sourceURL) (urlPath (URL object)) rel) w)
      (copyObjects tb recurse sourceService sourceURL destinationService destinationURL
         modifyContentHandler subPath copyHandler
         (relativePath (urlPath sourceURL) (urlPath (URL object)) rel) objects)
      = Some (r, w', cs)"
    by (simp add: Let_def)
  then show ?thesis
  proof (cases rule: andThenE)
    case (stop err)
    with False content_stop folder_stop show ?thesis
      by (cases "IsContent object") (simp_all add: IsContent_def)
  next
    case (go w1 cs1 cs2)
    with False content_go folder_go show ?thesis
      by (cases "IsContent object") (simp_all add: IsContent_def)
  qed
qed

lemma copyStorageContent_SucE:
  assumes "copyStorageContent (Suc fuel) tb sourceService sourceURL destinationService
             destinationURL modifyContentHandler subPath copyHandler w = Some (r, w', cs)"
  obtains
    (list_failed) err where
      "List sourceService (if subPath \<noteq> [] then URLPathJoin tb sourceURL subPath else sourceURL) w
         = (Inl err, w')"
      and "r = Some err"
      and "cs = [ListCall (if subPath \<noteq> [] then URLPathJoin tb sourceURL subPath else sourceURL)
                   (Inl err)]"
  | (listed) objects w1 cs1 where
      "List sourceService (if subPath \<noteq> [] then URLPathJoin tb sourceURL subPath else sourceURL) w
         = (Inr objects, w1)"
      and "copyObjects tb
             (\<lambda>subPath'. copyStorageContent fuel tb sourceService sourceURL destinationService
                destinationURL modifyContentHandler subPath' copyHandler)
             sourceService sourceURL destinationService destinationURL modifyContentHandler
             subPath copyHandler [] objects w1 = Some (r, w', cs1)"
      and "cs = ListCall (if subPath \<noteq> [] then URLPathJoin tb sourceURL subPath else sourceURL)
                  (Inr objects) # cs1"
proof -
  let ?u = "if subPath \<noteq> [] then URLPathJoin tb sourceURL subPath else sourceURL"
  obtain a w1 where l: "List sourceService ?u w = (a, w1)" by (cases "List sourceService ?u w")
  show ?thesis
  proof (cases a)
    case (Inl err)
    with assms l list_failed show ?thesis by (simp add: Let_def)
  next
    case (Inr objects)
    with assms l have "andThen (Some (None, w1, [ListCall ?u (Inr objects)]))
        (copyObjects tb
           (\<lambda>subPath'. copyStorageContent fuel tb sourceService sourceURL destinationService
              destinationURL modifyContentHandler subPath' copyHandler)
           sourceService sourceURL destinationService destinationURL modifyContentHandler
           subPath copyHandler [] objects) = Some (r, w', cs)"
      by (simp add: Let_def)
    then show ?thesis
    proof (cases rule: andThenE)
      case (stop err)
      then show ?thesis by simp
    next
      case (go w2 cs1 cs2)
      with l Inr listed show ?thesis by simp
    qed
  qed
qed

lemma handled_append: "handled (cs1 @ cs2) = handled cs1 @ handled cs2"
  by (induction cs1 rule: handled.induct) simp_all

lemma listedContent_append: "listedContent (cs1 @ cs2) = listedContent cs1 @ listedContent cs2"
  by (induction cs1 rule: listedContent.induct) simp_all



lemma copyObjects_induct:
  fixes Q :: "'w \<Rightarrow> error option \<Rightarrow> 'w \<Rightarrow> call list \<Rightarrow> bool"
    and L :: "Object list \<Rightarrow> 'w \<Rightarrow> error option \<Rightarrow> 'w \<Rightarrow> call list \<Rightarrow> bool"
    and C :: "Object \<Rightarrow> 'w \<Rightarrow> error option \<Rightarrow> 'w \<Rightarrow> call list \<Rightarrow> bool"
  assumes rec: "\<And>sp w r w' cs. recurse sp w = Some (r, w', cs) \<Longrightarrow> Q w r w' cs"
    and content: "\<And>object u w r w' cs. IsContent object \<Longrightarrow>
        copyContent tb sourceService destinationService destinationURL modifyContentHandler
          subPath copyHandler object u w = (r, w', cs) \<Longrightarrow> C object w r w' cs"
    and nil: "\<And>w. L [] w None w []"
    and skip: "\<And>object objects w r w' cs. IsFolder object \<Longrightarrow> L objects w r w' cs \<Longrightarrow>
        L (object # objects) w r w' cs"
    and content_stop: "\<And>object objects w err w' cs. IsContent object \<Longrightarrow>
        C object w (Some err) w' cs \<Longrightarrow> L (object # objects) w (Some err) w' cs"
    and content_go: "\<And>object objects w w1 cs1 r w' cs2. IsContent object \<Longrightarrow>
        C object w None w1 cs1 \<Longrightarrow> L objects w1 r w' cs2 \<Longrightarrow>
        L (object # objects) w r w' (cs1 @ cs2)"
    and folder_stop: "\<And>object objects w err w' cs. IsFolder object \<Longrightarrow>
        Q w (Some err) w' cs \<Longrightarrow> L (object # objects) w (Some err) w' cs"
    and folder_go: "\<And>object objects w w1 cs1 r w' cs2. IsFolder object \<Longrightarrow>
        Q w None w1 cs1 \<Longrightarrow> L objects w1 r w' cs2 \<Longrightarrow> L (object # objects) w r w' (cs1 @ cs2)"
  shows "copyObjects tb recurse sourceService sourceURL destinationService destinationURL
           modifyContentHandler subPath copyHandler rel objects w = Some (r, w', cs)
         \<Longrightarrow> L objects w r w' cs"
proof (induction objects arbitrary: rel w r w' cs)
  case Nil
  then show ?case by (simp add: nil)
next
  case (Cons object objects)
  from Cons.prems show ?case
  proof (cases rule: copyObjects_ConsE)
    case skip
    from skip(1) have "IsFolder object" by (simp add: skipObject_def Let_def)
    moreover from skip(2) have "L objects w r w' cs" by (rule Cons.IH)
    ultimately show ?thesis by (rule assms(4))
  next
    case (content_stop err)
    from content_stop(2,3) have "C object w (Some err) w' cs" by (rule content)
    with content_stop(2,4) show ?thesis by (simp add: assms(5))
  next
    case (content_go w1 cs1 cs2)
    from content_go(2,3) have "C object w None w1 cs1" by (rule content)
    moreover from content_go(4) have "L objects w1 r w' cs2" by (rule Cons.IH)
    ultimately show ?thesis using content_go(2,5) by (simp add: assms(6))
  next
    case (folder_stop err)
    from folder_stop(3) have "Q w (Some err) w' cs" by (rule rec)
    with folder_stop(2,4) show ?thesis by (simp add: assms(7))
  next
    case (folder_go w1 cs1 cs2)
    from folder_go(3) have "Q w None w1 cs1" by (rule rec)
    moreover from folder_go(4) have "L objects w1 r w' cs2" by (rule Cons.IH)
    ultimately show ?thesis using folder_go(2,5) by (simp add: assms(8))
  qed
qed

lemma copyStorageContent_induct:
  fixes Q :: "'w \<Rightarrow> error option \<Rightarrow> 'w \<Rightarrow> call list \<Rightarrow> bool"
    and L :: "Object list \<Rightarrow> 'w \<Rightarrow> error option \<Rightarrow> 'w \<Rightarrow> call list \<Rightarrow> bool"
    and C :: "Object \<Rightarrow> 'w \<Rightarrow> error option \<Rightarrow> 'w \<Rightarrow> call list \<Rightarrow> bool"
  assumes content: "\<And>subPath object u w r w' cs. IsContent object \<Longrightarrow>
        copyContent tb sourceService destinationService destinationURL modifyContentHandler
          subPath copyHandler object u w = (r, w', cs) \<Longrightarrow> C object w r w' cs"
    and list_failed: "\<And>u w err w'. List sourceService u w = (Inl err, w') \<Longrightarrow>
        Q w (Some err) w' [ListCall u (Inl err)]"
    and listed: "\<And>u w objects w1 r w' cs. List sourceService u w = (Inr objects, w1) \<Longrightarrow>
        L objects w1 r w' cs \<Longrightarrow> Q w r w' (ListCall u (Inr objects) # cs)"
    and nil: "\<And>w. L [] w None w []"
    and skip: "\<And>object objects w r w' cs. IsFolder object \<Longrightarrow> L objects w r w' cs \<Longrightarrow>
        L (object # objects) w r w' cs"
    and content_stop: "\<And>object objects w err w' cs. IsContent object \<Longrightarrow>
        C object w (Some err) w' cs \<Longrightarrow> L (object # objects) w (Some err) w' cs"
    and content_go: "\<And>object objects w w1 cs1 r w' cs2. IsContent object \<Longrightarrow>
        C object w None w1 cs1 \<Longrightarrow> L objects w1 r w' cs2 \<Longrightarrow>
        L (object # objects) w r w' (cs1 @ cs2)"
    and folder_stop: "\<And>object objects w err w' cs. IsFolder object \<Longrightarrow>
        Q w (Some err) w' cs \<Longrightarrow> L (object # objects) w (Some err) w' cs"
    and folder_go: "\<And>object objects w w1 cs1 r w' cs2. IsFolder object \<Longrightarrow>
        Q w None w1 cs1 \<Longrightarrow> L objects w1 r w' cs2 \<Longrightarrow> L (object # objects) w r w' (cs1 @ cs2)"
  shows "copyStorageContent fuel tb sourceService sourceURL destinationService destinationURL
           modifyContentHandler subPath copyHandler w = Some (r, w', cs)
         \<Longrightarrow> Q w r w' cs"
proof (induction fuel arbitrary: subPath w r w' cs)
  case 0
  then show ?case by simp
next
  case (Suc fuel)
  from Suc.prems show ?case
  proof (cases rule: copyStorageContent_SucE)
    case (list_failed err)
    then show ?thesis by (simp add: assms(2))
  next
    case (listed objects w1 cs1)
    from listed(2) have "L objects w1 r w' cs1"
      by (rule copyObjects_induct [where Q = Q and C = C, rotated -1])
        (fact Suc.IH content nil skip content_stop content_go folder_stop folder_go)+
    with listed(1,3) show ?thesis by (simp add: assms(3))
  qed
qed


lemma stopsAtFailure_append:
  "stopsAtFailure None cs1 \<Longrightarrow> stopsAtFailure r cs2 \<Longrightarrow> stopsAtFailure r (cs1 @ cs2)"
  by (cases "cs2 = []") (auto simp: stopsAtFailure_def butlast_append)

lemma copyContent_stops:
  "copyContent tb sourceService destinationService destinationURL modifyContentHandler subPath
     copyHandler object destinationObjectURL w = (r, w', cs) \<Longrightarrow> stopsAtFailure r cs"
  by (auto simp: copyContent_def modifyContent_def topLevelDestination_def stopsAtFailure_def
      ReadAll_def Let_def butlast_append
      split: prod.splits sum.splits option.splits if_splits)

lemma copyStorageContent_stops:
  assumes "copyStorageContent fuel tb sourceService sourceURL destinationService destinationURL
     modifyContentHandler subPath copyHandler w = Some (r, w', cs)"
  shows "stopsAtFailure r cs"
  using assms
proof (rule copyStorageContent_induct
    [where Q = "\<lambda>w r w' cs. stopsAtFailure r cs" and L = "\<lambda>objects w r w' cs. stopsAtFailure r cs"
      and C = "\<lambda>object w r w' cs. stopsAtFailure r cs", rotated -1])
  show "\<And>u w objects w1 r w' cs. List sourceService u w = (Inr objects, w1) \<Longrightarrow>
      stopsAtFailure r cs \<Longrightarrow> stopsAtFailure r (ListCall u (Inr objects) # cs)"
    using stopsAtFailure_append [of "[ListCall u (Inr objects)]" for u objects]
    by (simp add: stopsAtFailure_def)
qed (auto simp: stopsAtFailure_append copyContent_stops, auto simp: stopsAtFailure_def)

lemma handledOnce_content:
  assumes "copyContent tb sourceService destinationService destinationURL modifyContentHandler
     subPath copyHandler object u w = (r, w', cs)"
  shows "listedContent cs = [] \<and>
         (map fst (handled cs) = [object] \<or> (r \<noteq> None \<and> handled cs = []))"
  using assms
  by (auto simp: copyContent_def modifyContent_def topLevelDestination_def handled_append
      ReadAll_def Let_def
      split: prod.splits sum.splits option.splits if_splits)

lemma handledOnce_after:
  assumes "mset (map fst (handled cs1)) \<subseteq># mset pending1 + mset (listedContent cs1)"
    and "r1 = None \<longrightarrow> mset (map fst (handled cs1)) = mset pending1 + mset (listedContent cs1)"
    and "list_all IsContent (map fst (handled cs1))"
    and "handledOnce pending2 r cs2"
    and "r1 = None \<or> (cs2 = [] \<and> r = r1)"
  shows "handledOnce (pending1 @ pending2) r (cs1 @ cs2)"
proof -
  let ?h1 = "mset (map fst (handled cs1))" and ?h2 = "mset (map fst (handled cs2))"
  let ?l1 = "mset pending1 + mset (listedContent cs1)"
  let ?l2 = "mset pending2 + mset (listedContent cs2)"
  from assms(4) have a: "?h2 \<subseteq># ?l2" and b: "r = None \<longrightarrow> ?h2 = ?l2"
    and c: "list_all IsContent (map fst (handled cs2))"
    by (simp_all add: handledOnce_def Let_def)
  from assms(1) a have "?h1 + ?h2 \<subseteq># ?l1 + ?l2" by (rule subset_mset.add_mono)
  moreover from assms(2,5) b have "r = None \<longrightarrow> ?h1 + ?h2 = ?l1 + ?l2" by auto
  ultimately show ?thesis using assms(3) c
    by (simp add: handledOnce_def Let_def handled_append listedContent_append ac_simps)
qed

lemma copyStorageContent_handledOnce:
  assumes "copyStorageContent fuel tb sourceService sourceURL destinationService destinationURL
     modifyContentHandler subPath copyHandler w = Some (r, w', cs)"
  shows "handledOnce [] r cs"
  using assms
proof (rule copyStorageContent_induct
    [where Q = "\<lambda>w r w' cs. handledOnce [] r cs"
      and L = "\<lambda>objects w r w' cs. handledOnce (filter IsContent objects) r cs"
      and C = "\<lambda>object w r w' cs. listedContent cs = [] \<and>
         (map fst (handled cs) = [object] \<or> (r \<noteq> None \<and> handled cs = []))", rotated -1])
  fix subPath object u w r w' cs
  assume "IsContent object"
    and "copyContent tb sourceService destinationService destinationURL modifyContentHandler
        subPath copyHandler object u w = (r, w', cs)"
  then show "listedContent cs = [] \<and>
         (map fst (handled cs) = [object] \<or> (r \<noteq> None \<and> handled cs = []))"
    by (intro handledOnce_content)
next
  fix u w err w'
  show "handledOnce [] (Some err) [ListCall u (Inl err)]"
    by (simp add: handledOnce_def)
next
  fix u w objects w1 r w' cs
  assume "handledOnce (filter IsContent objects) r cs"
  then show "handledOnce [] r (ListCall u (Inr objects) # cs)"
    by (simp add: handledOnce_def Let_def)
next
  fix w :: 'a
  show "handledOnce (filter IsContent []) None []"
    by (simp add: handledOnce_def)
next
  fix object :: Object and objects :: "Object list" and r :: "error option" and cs :: "call list"
  assume "IsFolder object" and "handledOnce (filter IsContent objects) r cs"
  then show "handledOnce (filter IsContent (object # objects)) r cs"
    by (simp add: IsContent_def)
next
  fix object :: Object and objects :: "Object list" and err :: error and cs :: "call list"
  assume c: "IsContent object"
    and h: "listedContent cs = [] \<and>
      (map fst (handled cs) = [object] \<or> (Some err \<noteq> None \<and> handled cs = []))"
  have "handledOnce ([object] @ filter IsContent objects) (Some err) (cs @ [])"
    by (rule handledOnce_after [where ?r1.0 = "Some err"])
      (use c h in \<open>auto simp: handledOnce_def\<close>)
  with c show "handledOnce (filter IsContent (object # objects)) (Some err) cs" by simp
next
  fix object :: Object and objects :: "Object list" and cs1 cs2 :: "call list" and r :: "error option"
  assume c: "IsContent object"
    and h: "listedContent cs1 = [] \<and>
      (map fst (handled cs1) = [object] \<or> (None \<noteq> None \<and> handled cs1 = []))"
    and l: "handledOnce (filter IsContent objects) r cs2"
  have "handledOnce ([object] @ filter IsContent objects) r (cs1 @ cs2)"
    by (rule handledOnce_after [where ?r1.0 = None]) (use c h l in auto)
  with c show "handledOnce (filter IsContent (object # objects)) r (cs1 @ cs2)" by simp
next
  fix object :: Object and objects :: "Object list" and err :: error and cs :: "call list"
  assume f: "IsFolder object" and h: "handledOnce [] (Some err) cs"
  have "handledOnce ([] @ filter IsContent objects) (Some err) (cs @ [])"
    by (rule handledOnce_after [where ?r1.0 = "Some err"])
      (use h in \<open>auto simp: handledOnce_def Let_def\<close>)
  with f show "handledOnce (filter IsContent (object # objects)) (Some err) cs"
    by (simp add: IsContent_def)
next
  fix object :: Object and objects :: "Object list" and cs1 cs2 :: "call list" and r :: "error option"
  assume f: "IsFolder object" and h: "handledOnce [] None cs1"
    and l: "handledOnce (filter IsContent objects) r cs2"
  have "handledOnce ([] @ filter IsContent objects) r (cs1 @ cs2)"
    by (rule handledOnce_after [where ?r1.0 = None])
      (use h l in \<open>auto simp: handledOnce_def Let_def\<close>)
  with f show "handledOnce (filter IsContent (object # objects)) r (cs1 @ cs2)"
    by (simp add: IsContent_def)
qed

text \<open>
  A walk that returns with some number of nested calls returns the same with more: the
  bound only cuts walks short, it does not change them.
\<close>

lemma andThen_mono:
  assumes "andThen m1 k1 = Some x"
    and "\<And>y. m1 = Some y \<Longrightarrow> m2 = Some y"
    and "\<And>w y. k1 w = Some y \<Longrightarrow> k2 w = Some y"
  shows "andThen m2 k2 = Some x"
proof -
  obtain r w' cs where x: "x = (r, w', cs)" by (cases x)
  from assms(1) have "andThen m1 k1 = Some (r, w', cs)" by (simp add: x)
  then show ?thesis
  proof (cases rule: andThenE)
    case (stop err)
    with assms(2) x show ?thesis by (simp add: andThen_def)
  next
    case (go w1 cs1 cs2)
    with assms(2) [of "(None, w1, cs1)"] assms(3) [of w1 "(r, w', cs2)"] x show ?thesis
      by (simp add: andThen_def)
  qed
qed

lemma copyObjects_mono:
  assumes "\<And>sp w x. rec1 sp w = Some x \<Longrightarrow> rec2 sp w = Some x"
  shows "copyObjects tb rec1 sourceService sourceURL destinationService destinationURL
           modifyContentHandler subPath copyHandler rel objects w = Some x
         \<Longrightarrow> copyObjects tb rec2 sourceService sourceURL destinationService destinationURL
           modifyContentHandler subPath copyHandler rel objects w = Some x"
proof (induction objects arbitrary: rel w x)
  case Nil
  then show ?case by simp
next
  case (Cons object objects)
  show ?case
  proof (cases "skipObject tb sourceURL subPath object")
    case True
    with Cons show ?thesis by simp
  next
    case False
    with Cons.prems show ?thesis
      by (simp add: Let_def split del: if_split)
        (erule andThen_mono, auto intro: assms Cons.IH)
  qed
qed

lemma more_fuel:
  "copyStorageContent fuel tb sourceService sourceURL destinationService destinationURL
     modifyContentHandler subPath copyHandler w = Some x
   \<Longrightarrow> copyStorageContent (Suc fuel) tb sourceService sourceURL destinationService
     destinationURL modifyContentHandler subPath copyHandler w = Some x"
proof (induction fuel arbitrary: subPath w x)
  case 0
  then show ?case by simp
next
  case (Suc fuel)
  let ?u = "if subPath \<noteq> [] then URLPathJoin tb sourceURL subPath else sourceURL"
  obtain a w1 where l: "List sourceService ?u w = (a, w1)" by (cases "List sourceService ?u w")
  show ?case
  proof (cases a)
    case (Inl err)
    with Suc.prems l show ?thesis by (simp add: Let_def)
  next
    case (Inr objects)
    with Suc.prems l have "andThen (Some (None, w1, [ListCall ?u (Inr objects)]))
        (copyObjects tb
           (\<lambda>subPath'. copyStorageContent fuel tb sourceService sourceURL destinationService
              destinationURL modifyContentHandler subPath' copyHandler)
           sourceService sourceURL destinationService destinationURL modifyContentHandler
           subPath copyHandler [] objects) = Some x"
      by (simp add: Let_def)
    then have "andThen (Some (None, w1, [ListCall ?u (Inr objects)]))
        (copyObjects tb
           (\<lambda>subPath'. copyStorageContent (Suc fuel) tb sourceService sourceURL
              destinationService destinationURL modifyContentHandler subPath' copyHandler)
           sourceService sourceURL destinationService destinationURL modifyContentHandler
           subPath copyHandler [] objects) = Some x"
      by (rule andThen_mono) (auto intro: copyObjects_mono Suc.IH)
    with l Inr show ?thesis by (simp add: Let_def)
  qed
qed
section \<open>Failures\<close>

text \<open>
  Each call the walk makes is followed by a test of its error (lines 40, 69, 78, 83, 108
  and 114 of \<^verbatim>\<open>copy.go\<close>). The lemmas below take the failures one at a time: the
  call that fails, what the function around it answers, and how the answer goes up
  through the loop, the recursion and \<^const>\<open>Copy\<close>.
\<close>

lemma copyObjects_failed_prefix:
  "copyObjects tb recurse sourceService sourceURL destinationService destinationURL
     modifyContentHandler subPath copyHandler rel before w = Some (Some err, w', cs)
   \<Longrightarrow> copyObjects tb recurse sourceService sourceURL destinationService destinationURL
     modifyContentHandler subPath copyHandler rel (before @ after) w = Some (Some err, w', cs)"
proof (induction before arbitrary: rel w cs)
  case Nil
  then show ?case by simp
next
  case (Cons object before)
  show ?case
  proof (cases "skipObject tb sourceURL subPath object")
    case True
    with Cons show ?thesis by simp
  next
    case False
    let ?rel = "relativePath (urlPath sourceURL) (urlPath (URL object)) rel"
    let ?m = "if IsContent object then
         Some (copyContent tb sourceService destinationService destinationURL
                 modifyContentHandler subPath copyHandler object
                 (destinationObject tb destinationURL ?rel) w)
       else recurse ?rel w"
    from Cons.prems False have "andThen ?m
        (copyObjects tb recurse sourceService sourceURL destinationService destinationURL
           modifyContentHandler subPath copyHandler ?rel before) = Some (Some err, w', cs)"
      by (simp add: Let_def split del: if_split)
    then have "andThen ?m
        (copyObjects tb recurse sourceService sourceURL destinationService destinationURL
           modifyContentHandler subPath copyHandler ?rel (before @ after))
        = Some (Some err, w', cs)"
    proof (cases rule: andThenE)
      case (stop err')
      then show ?thesis by (simp add: andThen_def)
    next
      case (go w1 cs1 cs2)
      from go(2) have "copyObjects tb recurse sourceService sourceURL destinationService
          destinationURL modifyContentHandler subPath copyHandler ?rel (before @ after) w1
        = Some (Some err, w', cs2)"
        by (rule Cons.IH)
      with go(1,3) show ?thesis by (simp add: andThen_def)
    qed
    with False show ?thesis by (simp add: Let_def split del: if_split)
  qed
qed

lemma Copy_more_fuel:
  "Copy fuel tb sourceService sourceURL destinationService destinationURL modifyContentHandler
     copyHandler w = Some x
   \<Longrightarrow> Copy (fuel + k) tb sourceService sourceURL destinationService destinationURL
     modifyContentHandler copyHandler w = Some x"
proof (induction k)
  case 0
  then show ?case by simp
next
  case (Suc k)
  then have c: "Copy (fuel + k) tb sourceService sourceURL destinationService destinationURL
     modifyContentHandler copyHandler w = Some x" by simp
  let ?h = "case copyHandler of None \<Rightarrow> copySourceToDestination | Some h \<Rightarrow> h"
  from c obtain y where y: "copyStorageContent (fuel + k) tb sourceService sourceURL
      destinationService destinationURL modifyContentHandler [] ?h w = Some y"
    by (auto simp: Copy_def Let_def split: option.splits)
  then have "copyStorageContent (Suc (fuel + k)) tb sourceService sourceURL
      destinationService destinationURL modifyContentHandler [] ?h w = Some y"
    by (rule more_fuel)
  with c y show ?case by (simp add: Copy_def Let_def)
qed

lemma list_failed:
  "List sourceService (if subPath \<noteq> [] then URLPathJoin tb sourceURL subPath else sourceURL) w
      = (Inl err, w1)
   \<Longrightarrow> copyStorageContent (Suc fuel) tb sourceService sourceURL destinationService
          destinationURL modifyContentHandler subPath copyHandler w
        = Some (Some err, w1,
            [ListCall (if subPath \<noteq> [] then URLPathJoin tb sourceURL subPath else sourceURL)
               (Inl err)])"
  by (simp add: Let_def split del: if_split)

lemma download_failed:
  "Download sourceService object w = (Inl err, w1)
   \<Longrightarrow> copyContent tb sourceService destinationService destinationURL modifyContentHandler
          subPath copyHandler object u w
        = (Some (''unable download, '' @ URL object @ '' -> '' @ u @ '', '' @ err), w1,
           [DownloadCall object (Inl err)])"
  by (simp add: copyContent_def)

lemma read_failed:
  "Download sourceService object w = (Inr (Inl err), w1)
   \<Longrightarrow> copyContent tb sourceService destinationService destinationURL (Some h)
          subPath copyHandler object u w
        = (Some err, w1, [DownloadCall object (Inr (Inl err))])"
  by (simp add: copyContent_def modifyContent_def ReadAll_def)

lemma modification_failed:
  "Download sourceService object w = (Inr (Inr content), w1) \<Longrightarrow>
   h (NewReader content) w1 = (Inl err, w2)
   \<Longrightarrow> copyContent tb sourceService destinationService destinationURL (Some h)
          subPath copyHandler object u w
        = (Some (''unable modify content, '' @ URL object @ '' '' @ u @ '' '' @ err), w2,
           [DownloadCall object (Inr (Inr content)), ModifyCall content (Inl err)])"
  by (simp add: copyContent_def modifyContent_def ReadAll_def)

lemma handler_failed:
  "Download sourceService object w = (Inr reader, w1) \<Longrightarrow>
   modifyContent modifyContentHandler object u reader w1 = (Inr reader', w2, cs2) \<Longrightarrow>
   (if subPath = [] then topLevelDestination tb destinationService destinationURL object u w2
    else (u, w2, [])) = (d, w3, cs3) \<Longrightarrow>
   copyHandler object reader' destinationService d w3 = (Some err, w4)
   \<Longrightarrow> copyContent tb sourceService destinationService destinationURL modifyContentHandler
          subPath copyHandler object u w
        = (Some err, w4,
           DownloadCall object (Inr reader) # cs2 @ cs3 @
           [HandlerCall object reader' d (Some err)])"
  unfolding copyContent_def by (simp split del: if_split)

lemma upload_failed:
  "Upload destinationService d reader w = (Some err, w1)
   \<Longrightarrow> copySourceToDestination object reader destinationService d w
        = (Some (''unable upload, '' @ URL object @ '' '' @ d @ '' '' @ err), w1)"
  by (simp add: copySourceToDestination_def)

lemma step_failed:
  "\<not> skipObject tb sourceURL subPath object \<Longrightarrow>
   (if IsContent object then
      Some (copyContent tb sourceService destinationService destinationURL
              modifyContentHandler subPath copyHandler object
              (destinationObject tb destinationURL
                 (relativePath (urlPath sourceURL) (urlPath (URL object)) rel)) w)
    else recurse (relativePath (urlPath sourceURL) (urlPath (URL object)) rel) w)
   = Some (Some err, w', cs)
   \<Longrightarrow> copyObjects tb recurse sourceService sourceURL destinationService destinationURL
          modifyContentHandler subPath copyHandler rel (object # after) w
        = Some (Some err, w', cs)"
  by (simp add: Let_def andThen_def split del: if_split)

lemma later_failed:
  "\<not> skipObject tb sourceURL subPath object \<Longrightarrow>
   (if IsContent object then
      Some (copyContent tb sourceService destinationService destinationURL
              modifyContentHandler subPath copyHandler object
              (destinationObject tb destinationURL
                 (relativePath (urlPath sourceURL) (urlPath (URL object)) rel)) w)
    else recurse (relativePath (urlPath sourceURL) (urlPath (URL object)) rel) w)
   = Some (None, w1, cs1) \<Longrightarrow>
   copyObjects tb recurse sourceService sourceURL destinationService destinationURL
     modifyContentHandler subPath copyHandler
     (relativePath (urlPath sourceURL) (urlPath (URL object)) rel) after w1
   = Some (Some err, w', cs)
   \<Longrightarrow> copyObjects tb recurse sourceService sourceURL destinationService destinationURL
          modifyContentHandler subPath copyHandler rel (object # after) w
        = Some (Some err, w', cs1 @ cs)"
  by (simp add: Let_def andThen_def split del: if_split)

lemma skipped_failed:
  "skipObject tb sourceURL subPath object \<Longrightarrow>
   copyObjects tb recurse sourceService sourceURL destinationService destinationURL
     modifyContentHandler subPath copyHandler rel after w = Some (Some err, w', cs)
   \<Longrightarrow> copyObjects tb recurse sourceService sourceURL destinationService destinationURL
          modifyContentHandler subPath copyHandler rel (object # after) w
        = Some (Some err, w', cs)"
  by simp

lemma listing_failed:
  "List sourceService (if subPath \<noteq> [] then URLPathJoin tb sourceURL subPath else sourceURL) w
        = (Inr objects, w1) \<Longrightarrow>
   copyObjects tb
        (\<lambda>subPath'. copyStorageContent fuel tb sourceService sourceURL destinationService
           destinationURL modifyContentHandler subPath' copyHandler)
        sourceService sourceURL destinationService destinationURL modifyContentHandler
        subPath copyHandler [] objects w1 = Some (Some err, w', cs)
   \<Longrightarrow> copyStorageContent (Suc fuel) tb sourceService sourceURL destinationService
          destinationURL modifyContentHandler subPath copyHandler w
        = Some (Some err, w',
            ListCall (if subPath \<noteq> [] then URLPathJoin tb sourceURL subPath else sourceURL)
              (Inr objects) # cs)"
  by (simp add: Let_def andThen_def split del: if_split)

lemma Copy_failed:
  "copyStorageContent fuel tb sourceService sourceURL destinationService destinationURL
        modifyContentHandler []
        (case handlerOption of None \<Rightarrow> copySourceToDestination | Some handler \<Rightarrow> handler) w
        = Some (Some err, w', cs)
   \<Longrightarrow> Copy fuel tb sourceService sourceURL destinationService destinationURL
          modifyContentHandler handlerOption w
        = Some (Some (''failed to copy '' @ sourceURL @ '' -> '' @ destinationURL @ '': '' @ err),
                w', cs)"
  by (simp add: Copy_def)

lemma Copy_stops:
  assumes "Copy fuel tb sourceService sourceURL destinationService destinationURL
        modifyContentHandler handlerOption w = Some (r, w', cs)"
  shows "stopsAtFailure r cs \<and>
        (\<forall>e. r = Some e \<longrightarrow>
           (\<exists>cause. e = ''failed to copy '' @ sourceURL @ '' -> '' @ destinationURL @ '': '' @
              cause)) \<and>
        Copy (fuel + k) tb sourceService sourceURL destinationService destinationURL
          modifyContentHandler handlerOption w = Some (r, w', cs)"
proof (intro conjI)
  from assms show "stopsAtFailure r cs"
    by (auto simp: Copy_def Let_def stopsAtFailure_def
        split: option.splits prod.splits dest!: copyStorageContent_stops)
  from assms show "\<forall>e. r = Some e \<longrightarrow>
      (\<exists>cause. e = ''failed to copy '' @ sourceURL @ '' -> '' @ destinationURL @ '': '' @ cause)"
    by (auto simp: Copy_def Let_def split: option.splits prod.splits)
  from assms show "Copy (fuel + k) tb sourceService sourceURL destinationService destinationURL
          modifyContentHandler handlerOption w = Some (r, w', cs)"
    by (rule Copy_more_fuel)
qed

text \<open>
  Claim C6. Copy stops at the first failure and answers with an error. Whichever call
  fails, the function that made it returns at once with an error: a listing that fails
  ends \<^const>\<open>copyStorageContent\<close> with the error of the listing; a download that fails,
  a content that cannot be read, a modification handler that fails and a copy handler
  that fails each end \<^const>\<open>copyContent\<close>, with the errors of lines 70, 79, 84 and 109,
  and an upload that fails makes the handler of \<^const>\<open>Copy\<close> fail with the message of
  line 125. An error of one object ends the loop with no further object looked at,
  whether the object is the first one, comes after objects that were copied or after
  objects that were skipped; an error of the loop ends the listing of the folder, so an
  error in a sub folder ends the folders above it; and an error of the walk makes
  \<^const>\<open>Copy\<close> answer \<^verbatim>\<open>failed to copy <sourceURL> -> <destinationURL>: <cause>\<close>. None
  of this depends on how many nested calls are allowed beyond the ones that were made.
  Last, whatever \<^const>\<open>Copy\<close> answers, every call it made but the last succeeded, an
  answer without error means that every call succeeded, an error answer has the form
  above, and the answer stays the same when more nested calls are allowed.
\<close>

theorem Copy_stops_at_first_failure:
  "(List sourceService (if subPath \<noteq> [] then URLPathJoin tb sourceURL subPath else sourceURL) w
      = (Inl err, w1)
    \<longrightarrow> copyStorageContent (Suc fuel) tb sourceService sourceURL destinationService
          destinationURL modifyContentHandler subPath copyHandler w
        = Some (Some err, w1,
            [ListCall (if subPath \<noteq> [] then URLPathJoin tb sourceURL subPath else sourceURL)
               (Inl err)]))
   \<and> (Download sourceService object w = (Inl err, w1)
    \<longrightarrow> copyContent tb sourceService destinationService destinationURL modifyContentHandler
          subPath copyHandler object u w
        = (Some (''unable download, '' @ URL object @ '' -> '' @ u @ '', '' @ err), w1,
           [DownloadCall object (Inl err)]))
   \<and> (Download sourceService object w = (Inr (Inl err), w1)
    \<longrightarrow> copyContent tb sourceService destinationService destinationURL (Some h)
          subPath copyHandler object u w
        = (Some err, w1, [DownloadCall object (Inr (Inl err))]))
   \<and> (Download sourceService object w = (Inr (Inr content), w1) \<and>
      h (NewReader content) w1 = (Inl err, w2)
    \<longrightarrow> copyContent tb sourceService destinationService destinationURL (Some h)
          subPath copyHandler object u w
        = (Some (''unable modify content, '' @ URL object @ '' '' @ u @ '' '' @ err), w2,
           [DownloadCall object (Inr (Inr content)), ModifyCall content (Inl err)]))
   \<and> (Download sourceService object w = (Inr reader, w1) \<and>
      modifyContent modifyContentHandler object u reader w1 = (Inr reader', w2, cs2) \<and>
      (if subPath = [] then topLevelDestination tb destinationService destinationURL object u w2
       else (u, w2, [])) = (d, w3, cs3) \<and>
      copyHandler object reader' destinationService d w3 = (Some err, w4)
    \<longrightarrow> copyContent tb sourceService destinationService destinationURL modifyContentHandler
          subPath copyHandler object u w
        = (Some err, w4,
           DownloadCall object (Inr reader) # cs2 @ cs3 @
           [HandlerCall object reader' d (Some err)]))
   \<and> (Upload destinationService d reader w = (Some err, w1)
    \<longrightarrow> copySourceToDestination object reader destinationService d w
        = (Some (''unable upload, '' @ URL object @ '' '' @ d @ '' '' @ err), w1))
   \<and> (\<not> skipObject tb sourceURL subPath object \<and>
      (if IsContent object then
         Some (copyContent tb sourceService destinationService destinationURL
                 modifyContentHandler subPath copyHandler object
                 (destinationObject tb destinationURL
                    (relativePath (urlPath sourceURL) (urlPath (URL object)) rel)) w)
       else recurse (relativePath (urlPath sourceURL) (urlPath (URL object)) rel) w)
      = Some (Some err, w', cs)
    \<longrightarrow> copyObjects tb recurse sourceService sourceURL destinationService destinationURL
          modifyContentHandler subPath copyHandler rel (object # after) w
        = Some (Some err, w', cs))
   \<and> (\<not> skipObject tb sourceURL subPath object \<and>
      (if IsContent object then
         Some (copyContent tb sourceService destinationService destinationURL
                 modifyContentHandler subPath copyHandler object
                 (destinationObject tb destinationURL
                    (relativePath (urlPath sourceURL) (urlPath (URL object)) rel)) w)
       else recurse (relativePath (urlPath sourceURL) (urlPath (URL object)) rel) w)
      = Some (None, w1, cs1) \<and>
      copyObjects tb recurse sourceService sourceURL destinationService destinationURL
        modifyContentHandler subPath copyHandler
        (relativePath (urlPath sourceURL) (urlPath (URL object)) rel) after w1
      = Some (Some err, w', cs)
    \<longrightarrow> copyObjects tb recurse sourceService sourceURL destinationService destinationURL
          modifyContentHandler subPath copyHandler rel (object # after) w
        = Some (Some err, w', cs1 @ cs))
   \<and> (skipObject tb sourceURL subPath object \<and>
      copyObjects tb recurse sourceService sourceURL destinationService destinationURL
        modifyContentHandler subPath copyHandler rel after w = Some (Some err, w', cs)
    \<longrightarrow> copyObjects tb recurse sourceService sourceURL destinationService destinationURL
          modifyContentHandler subPath copyHandler rel (object # after) w
        = Some (Some err, w', cs))
   \<and> (copyObjects tb recurse sourceService sourceURL destinationService destinationURL
        modifyContentHandler subPath copyHandler rel before w = Some (Some err, w', cs)
    \<longrightarrow> copyObjects tb recurse sourceService sourceURL destinationService destinationURL
          modifyContentHandler subPath copyHandler rel (before @ after) w
        = Some (Some err, w', cs))
   \<and> (List sourceService (if subPath \<noteq> [] then URLPathJoin tb sourceURL subPath else sourceURL) w
        = (Inr objects, w1) \<and>
      copyObjects tb
        (\<lambda>subPath'. copyStorageContent fuel tb sourceService sourceURL destinationService
           destinationURL modifyContentHandler subPath' copyHandler)
        sourceService sourceURL destinationService destinationURL modifyContentHandler
        subPath copyHandler [] objects w1 = Some (Some err, w', cs)
    \<longrightarrow> copyStorageContent (Suc fuel) tb sourceService sourceURL destinationService
          destinationURL modifyContentHandler subPath copyHandler w
        = Some (Some err, w',
            ListCall (if subPath \<noteq> [] then URLPathJoin tb sourceURL subPath else sourceURL)
              (Inr objects) # cs))
   \<and> (copyStorageContent fuel tb sourceService sourceURL destinationService destinationURL
        modifyContentHandler []
        (case handlerOption of None \<Rightarrow> copySourceToDestination | Some handler \<Rightarrow> handler) w
        = Some (Some err, w', cs)
    \<longrightarrow> Copy fuel tb sourceService sourceURL destinationService destinationURL
          modifyContentHandler handlerOption w
        = Some (Some (''failed to copy '' @ sourceURL @ '' -> '' @ destinationURL @ '': '' @ err),
                w', cs))
   \<and> (Copy fuel tb sourceService sourceURL destinationService destinationURL
        modifyContentHandler handlerOption w = Some (r, w', cs)
    \<longrightarrow> stopsAtFailure r cs \<and>
        (\<forall>e. r = Some e \<longrightarrow>
           (\<exists>cause. e = ''failed to copy '' @ sourceURL @ '' -> '' @ destinationURL @ '': '' @
              cause)) \<and>
        Copy (fuel + k) tb sourceService sourceURL destinationService destinationURL
          modifyContentHandler handlerOption w = Some (r, w', cs))"
proof (intro conjI)
  show "List sourceService (if subPath \<noteq> [] then URLPathJoin tb sourceURL subPath else sourceURL) w
      = (Inl err, w1)
    \<longrightarrow> copyStorageContent (Suc fuel) tb sourceService sourceURL destinationService
          destinationURL modifyContentHandler subPath copyHandler w
        = Some (Some err, w1,
            [ListCall (if subPath \<noteq> [] then URLPathJoin tb sourceURL subPath else sourceURL)
               (Inl err)])"
    by (rule impI) (rule list_failed)
qed (blast intro: download_failed read_failed modification_failed handler_failed upload_failed
    step_failed later_failed skipped_failed copyObjects_failed_prefix listing_failed Copy_failed
    dest: Copy_stops)+

theorem Copy_stops_at_first_failure_witness:
  "Copy 1 goToolbox (tableService srcListings srcContents) ''mem:///nowhere'' storeService
     ''mem:///dst'' None None []
   = Some (Some ''failed to copy mem:///nowhere -> mem:///dst: not found: mem:///nowhere'', [],
           [ListCall ''mem:///nowhere'' (Inl ''not found: mem:///nowhere'')])
   \<and> Copy 2 goToolbox (tableService srcListings (take 1 srcContents)) ''mem:///src''
       storeService ''mem:///dst'' None None []
     = Some (Some (''failed to copy mem:///src -> mem:///dst: '' @
                   ''unable download, mem:///src/sub/b.txt -> mem:///dst/sub/b.txt, '' @
                   ''not found: mem:///src/sub/b.txt''),
             [(''mem:///dst/a.txt'', ''hello'')], failingCalls)
   \<and> stopsAtFailure (Some (''failed to copy mem:///src -> mem:///dst: '' @
                   ''unable download, mem:///src/sub/b.txt -> mem:///dst/sub/b.txt, '' @
                   ''not found: mem:///src/sub/b.txt'')) failingCalls
   \<and> Copy 1 goToolbox (tableService srcListings srcContents) ''mem:///src'' storeService
       ''mem:///dst'' (Some refuse) None []
     = Some (Some (''failed to copy mem:///src -> mem:///dst: '' @
                   ''unable modify content, mem:///src/a.txt mem:///dst/a.txt refused''),
             [], refusedCalls)
   \<and> Copy 1 goToolbox (tableService srcListings srcContents) ''mem:///src''
       (tableService [] []) ''mem:///dst'' None None ([] :: store)
     = Some (Some (''failed to copy mem:///src -> mem:///dst: '' @
                   ''unable upload, mem:///src/a.txt mem:///dst/a.txt read only''),
             [], readOnlyCalls)
   \<and> \<not> succeeded (last failingCalls)"
proof -
  note T = Copy_stops_at_first_failure
  note listFails = T [THEN conjunct1, rule_format]
  note T2 = T [THEN conjunct2]
  note downloadFails = T2 [THEN conjunct1, rule_format]
  note T3 = T2 [THEN conjunct2]
  note T4 = T3 [THEN conjunct2]
  note modificationFails = T4 [THEN conjunct1, rule_format]
  note T5 = T4 [THEN conjunct2]
  note handlerFails = T5 [THEN conjunct1, rule_format]
  note T6 = T5 [THEN conjunct2]
  note uploadFails = T6 [THEN conjunct1, rule_format]
  note T7 = T6 [THEN conjunct2]
  note stepFails = T7 [THEN conjunct1, rule_format]
  note T8 = T7 [THEN conjunct2]
  note laterFails = T8 [THEN conjunct1, rule_format]
  note T9 = T8 [THEN conjunct2]
  note T10 = T9 [THEN conjunct2]
  note T11 = T10 [THEN conjunct2]
  note listingFails = T11 [THEN conjunct1, rule_format]
  note T12 = T11 [THEN conjunct2]
  note CopyFails = T12 [THEN conjunct1, rule_format]
  note CopyStops = T12 [THEN conjunct2, rule_format]
  let ?S = "tableService srcListings srcContents :: store Service"
  let ?B = "tableService srcListings (take 1 srcContents) :: store Service"
  let ?D = "tableService [] [] :: store Service"
  have src [simp]: "(if [] \<noteq> [] then URLPathJoin goToolbox u [] else u) = u" for u :: string
    by simp
  \<comment> \<open>a listing that fails\<close>
  have "List ?S (if [] \<noteq> [] then URLPathJoin goToolbox ''mem:///nowhere'' []
      else ''mem:///nowhere'') [] = (Inl ''not found: mem:///nowhere'', [])"
    by code_simp
  then have "copyStorageContent (Suc 0) goToolbox ?S ''mem:///nowhere'' storeService ''mem:///dst''
      None [] (case None of None \<Rightarrow> copySourceToDestination | Some handler \<Rightarrow> handler) []
    = Some (Some ''not found: mem:///nowhere'', [],
        [ListCall ''mem:///nowhere'' (Inl ''not found: mem:///nowhere'')])"
    by (simp only: listFails src option.case)
  then have a: "Copy 1 goToolbox ?S ''mem:///nowhere'' storeService ''mem:///dst'' None None []
   = Some (Some ''failed to copy mem:///nowhere -> mem:///dst: not found: mem:///nowhere'', [],
           [ListCall ''mem:///nowhere'' (Inl ''not found: mem:///nowhere'')])"
    by (simp add: CopyFails)
  \<comment> \<open>a download that fails, in the folder, after a content that was copied\<close>
  have "Download ?B bTxt [(''mem:///dst/a.txt'', ''hello'')]
      = (Inl ''not found: mem:///src/sub/b.txt'', [(''mem:///dst/a.txt'', ''hello'')])"
    by code_simp
  then have b1: "copyContent goToolbox ?B storeService ''mem:///dst'' None ''sub''
      copySourceToDestination bTxt ''mem:///dst/sub/b.txt'' [(''mem:///dst/a.txt'', ''hello'')]
    = (Some (''unable download, '' @ URL bTxt @ '' -> '' @ ''mem:///dst/sub/b.txt'' @ '', '' @
          ''not found: mem:///src/sub/b.txt''),
       [(''mem:///dst/a.txt'', ''hello'')],
       [DownloadCall bTxt (Inl ''not found: mem:///src/sub/b.txt'')])"
    by (rule downloadFails)
  have b: "Copy 2 goToolbox ?B ''mem:///src'' storeService ''mem:///dst'' None None []
     = Some (Some (''failed to copy mem:///src -> mem:///dst: '' @
                   ''unable download, mem:///src/sub/b.txt -> mem:///dst/sub/b.txt, '' @
                   ''not found: mem:///src/sub/b.txt''),
             [(''mem:///dst/a.txt'', ''hello'')], failingCalls)"
    by code_simp
  note g = CopyStops [OF b]
  \<comment> \<open>a modification that fails\<close>
  let ?R = "\<lambda>subPath'. copyStorageContent 0 goToolbox ?S ''mem:///src'' storeService
      ''mem:///dst'' (Some refuse) subPath' copySourceToDestination"
  have d: "Download ?S aTxt [] = (Inr (Inr ''hello''), [])" by code_simp
  have m: "refuse (NewReader ''hello'') [] = (Inl ''refused'', [])" by (simp add: refuse_def)
  note c1 = modificationFails [where h = refuse, OF conjI [OF d m], where tb = goToolbox
      and destinationService = storeService and destinationURL = "''mem:///dst''"
      and subPath = "[]" and copyHandler = copySourceToDestination
      and u = "''mem:///dst/a.txt''"]
  have k: "\<not> skipObject goToolbox ''mem:///src'' [] aTxt" by code_simp
  have u: "destinationObject goToolbox ''mem:///dst''
      (relativePath (urlPath ''mem:///src'') (urlPath (URL aTxt)) []) = ''mem:///dst/a.txt''"
    by code_simp
  have i: "IsContent aTxt" by code_simp
  have st: "(if IsContent aTxt then
         Some (copyContent goToolbox ?S storeService ''mem:///dst'' (Some refuse) []
                 copySourceToDestination aTxt
                 (destinationObject goToolbox ''mem:///dst''
                    (relativePath (urlPath ''mem:///src'') (urlPath (URL aTxt)) [])) [])
       else ?R (relativePath (urlPath ''mem:///src'') (urlPath (URL aTxt)) []) [])
      = Some (Some (''unable modify content, '' @ URL aTxt @ '' '' @ ''mem:///dst/a.txt'' @ '' '' @
            ''refused''), [],
          [DownloadCall aTxt (Inr (Inr ''hello'')), ModifyCall ''hello'' (Inl ''refused'')])"
    using c1 i by (simp only: u if_True)
  note c2 = stepFails [where recurse = ?R and rel = "[]" and after = "[subDir]",
      OF conjI [OF k st]]
  have l2: "List ?S (if [] \<noteq> [] then URLPathJoin goToolbox ''mem:///src'' [] else ''mem:///src'') []
      = (Inr [aTxt, subDir], [])"
    by code_simp
  note c3 = listingFails [OF conjI [OF l2 c2]]
  have c4: "copyStorageContent (Suc 0) goToolbox ?S ''mem:///src'' storeService ''mem:///dst''
      (Some refuse) []
      (case None of None \<Rightarrow> copySourceToDestination | Some handler \<Rightarrow> handler) []
    = Some (Some (''unable modify content, '' @ URL aTxt @ '' '' @ ''mem:///dst/a.txt'' @ '' '' @
            ''refused''), [],
        ListCall ''mem:///src'' (Inr [aTxt, subDir]) #
          [DownloadCall aTxt (Inr (Inr ''hello'')), ModifyCall ''hello'' (Inl ''refused'')])"
    using c3 by (simp only: src option.case)
  have c: "Copy 1 goToolbox ?S ''mem:///src'' storeService ''mem:///dst'' (Some refuse) None []
     = Some (Some (''failed to copy mem:///src -> mem:///dst: '' @
                   ''unable modify content, mem:///src/a.txt mem:///dst/a.txt refused''),
             [], refusedCalls)"
    using CopyFails [OF c4] by (simp add: refusedCalls_def aTxt_def memoryObject_def)
  \<comment> \<open>an upload that fails\<close>
  let ?R' = "\<lambda>subPath'. copyStorageContent 0 goToolbox ?S ''mem:///src'' ?D
      ''mem:///dst'' None subPath' copySourceToDestination"
  have up: "Upload ?D ''mem:///dst/a.txt'' (Inr ''hello'') [] = (Some ''read only'', [])"
    by code_simp
  note e1 = uploadFails [OF up, where object = aTxt]
  have e2: "modifyContent None aTxt ''mem:///dst/a.txt'' (Inr ''hello'') ([] :: store)
      = (Inr (Inr ''hello''), [], [])"
    by code_simp
  have e3: "(if ([] :: string) = [] then
        topLevelDestination goToolbox ?D ''mem:///dst'' aTxt ''mem:///dst/a.txt'' []
      else (''mem:///dst/a.txt'', [], []))
      = (''mem:///dst/a.txt'', [], [StorageObjectCall ''mem:///dst/a.txt'' None])"
    by code_simp
  note e4 = handlerFails [where copyHandler = copySourceToDestination,
      OF conjI [OF d conjI [OF e2 conjI [OF e3 e1]]]]
  have e5: "(if IsContent aTxt then
         Some (copyContent goToolbox ?S ?D ''mem:///dst'' None []
                 copySourceToDestination aTxt
                 (destinationObject goToolbox ''mem:///dst''
                    (relativePath (urlPath ''mem:///src'') (urlPath (URL aTxt)) [])) [])
       else ?R' (relativePath (urlPath ''mem:///src'') (urlPath (URL aTxt)) []) [])
      = Some (Some (''unable upload, '' @ URL aTxt @ '' '' @ ''mem:///dst/a.txt'' @ '' '' @
            ''read only''), [],
          DownloadCall aTxt (Inr (Inr ''hello'')) # [] @
          [StorageObjectCall ''mem:///dst/a.txt'' None] @
          [HandlerCall aTxt (Inr ''hello'') ''mem:///dst/a.txt''
             (Some (''unable upload, '' @ URL aTxt @ '' '' @ ''mem:///dst/a.txt'' @ '' '' @
                ''read only''))])"
    using e4 i by (simp only: u if_True)
  note e6 = stepFails [where recurse = ?R' and rel = "[]" and after = "[subDir]",
      OF conjI [OF k e5]]
  note e7 = listingFails [OF conjI [OF l2 e6]]
  have e8: "copyStorageContent (Suc 0) goToolbox ?S ''mem:///src'' ?D ''mem:///dst'' None []
      (case None of None \<Rightarrow> copySourceToDestination | Some handler \<Rightarrow> handler) []
    = Some (Some (''unable upload, '' @ URL aTxt @ '' '' @ ''mem:///dst/a.txt'' @ '' '' @
            ''read only''), [],
          ListCall ''mem:///src'' (Inr [aTxt, subDir]) #
          DownloadCall aTxt (Inr (Inr ''hello'')) # [] @
          [StorageObjectCall ''mem:///dst/a.txt'' None] @
          [HandlerCall aTxt (Inr ''hello'') ''mem:///dst/a.txt''
             (Some (''unable upload, '' @ URL aTxt @ '' '' @ ''mem:///dst/a.txt'' @ '' '' @
                ''read only''))])"
    using e7 by (simp only: src option.case)
  have e: "Copy 1 goToolbox ?S ''mem:///src'' ?D ''mem:///dst'' None None ([] :: store)
     = Some (Some (''failed to copy mem:///src -> mem:///dst: '' @
                   ''unable upload, mem:///src/a.txt mem:///dst/a.txt read only''),
             [], readOnlyCalls)"
    using CopyFails [OF e8] by (simp add: readOnlyCalls_def aTxt_def memoryObject_def)
  have l: "\<not> succeeded (last failingCalls)" by code_simp
  from a b b1 g c e l show ?thesis by simp
qed


section \<open>Every content object is handled once\<close>

text \<open>
  Claim C2, as amended. In the calls of one \<^const>\<open>Copy\<close>, \<^const>\<open>Archive\<close> or
  \<^const>\<open>ArchiveWithFilter\<close>, only content objects are given to the copy handler, never a
  folder, and none more often than the listings returned it. When the call answers
  without an error, the objects given to the handler are exactly the content objects
  that the listings returned, each as often as it was listed. A call that ends with an
  error has left out the listed content objects it did not reach.
\<close>

theorem content_handled_once:
  "(Copy fuel tb sourceService sourceURL destinationService destinationURL
      modifyContentHandler copyHandler w = Some (r, w', cs) \<longrightarrow> handledOnce [] r cs)
   \<and> (Archive fuel tb service u writer b = Some (r, b', writer', cs) \<longrightarrow> handledOnce [] r cs)
   \<and> (ArchiveWithFilter fuel tb service u writer predicate b = Some (r, b', writer', cs)
        \<longrightarrow> handledOnce [] r cs)"
proof -
  have copy: "handledOnce [] r cs"
    if "Copy fuel tb sourceService sourceURL destinationService destinationURL
          modifyContentHandler copyHandler w = Some (r, w', cs)"
    for tb sourceURL destinationURL r cs
      and sourceService destinationService :: "'w Service"
      and modifyContentHandler copyHandler w w'
    using that
    by (auto simp: Copy_def Let_def handledOnce_def
        split: option.splits prod.splits dest!: copyStorageContent_handledOnce)
  show ?thesis
    by (auto simp: Archive_def ArchiveWithFilter_def archiveOutcome_def Let_def
        split: option.splits prod.splits dest: copy)
qed

theorem content_handled_once_witness:
  "Copy 2 goToolbox (tableService srcListings srcContents) ''mem:///src''
     storeService ''mem:///dst'' None None []
   = Some (None, [(''mem:///dst/sub/b.txt'', ''world''), (''mem:///dst/a.txt'', ''hello'')],
           copiedCalls)
   \<and> handledOnce [] None copiedCalls
   \<and> listedContent copiedCalls = [aTxt, bTxt]
   \<and> map fst (handled copiedCalls) = [aTxt, bTxt]"
proof -
  have e: "Copy 2 goToolbox (tableService srcListings srcContents) ''mem:///src''
     storeService ''mem:///dst'' None None []
   = Some (None, [(''mem:///dst/sub/b.txt'', ''world''), (''mem:///dst/a.txt'', ''hello'')],
           copiedCalls)"
    by code_simp
  have l: "listedContent copiedCalls = [aTxt, bTxt]" by code_simp
  have h: "map fst (handled copiedCalls) = [aTxt, bTxt]" by code_simp
  from content_handled_once [THEN conjunct1, THEN mp, OF e] e l h
  show ?thesis by simp
qed

text \<open>
  The claim as it stands fails: the download of \<^verbatim>\<open>b.txt\<close> fails, so \<^verbatim>\<open>b.txt\<close> was
  listed and never given to the handler.
\<close>

theorem content_handled_once_counterexample:
  "Copy 2 goToolbox (tableService srcListings (take 1 srcContents)) ''mem:///src''
     storeService ''mem:///dst'' None None []
   = Some (Some (''failed to copy mem:///src -> mem:///dst: '' @
                 ''unable download, mem:///src/sub/b.txt -> mem:///dst/sub/b.txt, '' @
                 ''not found: mem:///src/sub/b.txt''),
           [(''mem:///dst/a.txt'', ''hello'')], failingCalls)
   \<and> listedContent failingCalls = [aTxt, bTxt]
   \<and> map fst (handled failingCalls) = [aTxt]"
  by code_simp

section \<open>Modified content\<close>





section \<open>Folders that are skipped\<close>

lemma copyObjects_skip:
  assumes "skipObject tb sourceURL subPath object"
  shows "copyObjects tb recurse sourceService sourceURL destinationService destinationURL
           modifyContentHandler subPath copyHandler rel (before @ object # after)
         = copyObjects tb recurse sourceService sourceURL destinationService destinationURL
           modifyContentHandler subPath copyHandler rel (before @ after)"
proof (induction before arbitrary: rel)
  case Nil
  from assms show ?case by (intro ext) simp
next
  case (Cons x before)
  show ?case by (intro ext) (simp add: Cons.IH Let_def)
qed

text \<open>
  Claim C7. A listed folder whose canonical path is that of the root, or, with a sub
  path, the join of the root's canonical path and the sub path, leaves no trace: the
  loop over a listing that holds it does what the loop over the listing without it
  does, whatever the recursive call \<open>recurse\<close> and the copy handler are. So the folder
  is neither recursed into nor given to the handler.
\<close>

theorem folder_skipped:
  assumes "IsFolder object"
    and "urlPath (URL object) = urlPath sourceURL
         \<or> (subPath \<noteq> [] \<and> urlPath (URL object) = URLPathJoin tb (urlPath sourceURL) subPath)"
  shows "copyObjects tb recurse sourceService sourceURL destinationService destinationURL
           modifyContentHandler subPath copyHandler rel (before @ object # after) w
         = copyObjects tb recurse sourceService sourceURL destinationService destinationURL
           modifyContentHandler subPath copyHandler rel (before @ after) w"
proof -
  from assms have "skipObject tb sourceURL subPath object"
    by (auto simp: skipObject_def Let_def)
  then show ?thesis by (simp add: copyObjects_skip)
qed

theorem folder_skipped_witness:
  "copyObjects goToolbox (\<lambda>subPath w. None) (tableService guardedListings srcContents)
     ''mem:///src'' storeService ''mem:///dst'' None [] copySourceToDestination []
     ([aTxt] @ srcDir # [bTxt]) []
   = copyObjects goToolbox (\<lambda>subPath w. None) (tableService guardedListings srcContents)
     ''mem:///src'' storeService ''mem:///dst'' None [] copySourceToDestination []
     ([aTxt] @ [bTxt]) []
   \<and> copyObjects goToolbox (\<lambda>subPath w. None) (tableService guardedListings srcContents)
     ''mem:///src'' storeService ''mem:///dst'' None ''sub'' copySourceToDestination []
     ([] @ subDir # [bTxt]) []
   = copyObjects goToolbox (\<lambda>subPath w. None) (tableService guardedListings srcContents)
     ''mem:///src'' storeService ''mem:///dst'' None ''sub'' copySourceToDestination []
     ([] @ [bTxt]) []
   \<and> Copy 2 goToolbox (tableService guardedListings srcContents) ''mem:///src''
       storeService ''mem:///dst'' None None []
     = Some (None, [(''mem:///dst/sub/b.txt'', ''world''), (''mem:///dst/a.txt'', ''hello'')],
             guardedCalls)"
proof -
  have f1: "IsFolder srcDir" by code_simp
  have p1: "urlPath (URL srcDir) = urlPath ''mem:///src''
         \<or> ([] \<noteq> [] \<and> urlPath (URL srcDir) = URLPathJoin goToolbox (urlPath ''mem:///src'') [])"
    by code_simp
  have f2: "IsFolder subDir" by code_simp
  have p2: "urlPath (URL subDir) = urlPath ''mem:///src''
         \<or> (''sub'' \<noteq> [] \<and>
             urlPath (URL subDir) = URLPathJoin goToolbox (urlPath ''mem:///src'') ''sub'')"
    by code_simp
  have e: "Copy 2 goToolbox (tableService guardedListings srcContents) ''mem:///src''
       storeService ''mem:///dst'' None None []
     = Some (None, [(''mem:///dst/sub/b.txt'', ''world''), (''mem:///dst/a.txt'', ''hello'')],
             guardedCalls)"
    by code_simp
  show ?thesis
    by (intro conjI) (rule folder_skipped [OF f1 p1], rule folder_skipped [OF f2 p2], rule e)
qed

section \<open>The destination of a content object of the first listing\<close>




section \<open>The relative path of a listed object\<close>


text \<open>
  Claim C4 fails on the code. The variable that holds the relative path is declared
  before the loop and written only when the path of the object is longer than that of
  the root. For a content object whose canonical path is the root's, listed after
  \<^verbatim>\<open>a.txt\<close>, the relative path is still \<^verbatim>\<open>a.txt\<close> and not empty: with the destination
  \<^verbatim>\<open>mem:///dst.d\<close> the handler is given \<^verbatim>\<open>mem:///dst.d/a.txt\<close> for both objects, and the
  second upload overwrites the first.
\<close>

theorem stale_relative_path:
  "Copy 1 goToolbox (tableService staleListings staleContents) ''mem:///src''
     storeService ''mem:///dst.d'' None None []
   = Some (None, [(''mem:///dst.d/a.txt'', ''root''), (''mem:///dst.d/a.txt'', ''hello'')],
           staleCalls)
   \<and> urlPath (URL srcFile) = urlPath ''mem:///src''
   \<and> relativePath (urlPath ''mem:///src'') (urlPath (URL srcFile)) ''a.txt'' = ''a.txt''
   \<and> map (\<lambda>(object, reader, u). (URL object, u)) (handled staleCalls)
       = [(''mem:///src/a.txt'', ''mem:///dst.d/a.txt''), (''mem:///src'', ''mem:///dst.d/a.txt'')]
   \<and> destinationObject goToolbox ''mem:///dst.d'' [] = ''mem:///dst.d''"
  by code_simp

section \<open>The archive\<close>

text \<open>
  A relation between worlds that every call on the services and every handler call
  respects holds between the first and the last world of a walk.
\<close>

lemma walk_world:
  fixes R :: "'w \<Rightarrow> 'w \<Rightarrow> bool"
  assumes walk: "copyStorageContent fuel tb sourceService sourceURL destinationService
      destinationURL modifyContentHandler subPath copyHandler w = Some (r, w', cs)"
    and refl: "\<And>w. R w w"
    and trans: "\<And>a b c. R a b \<Longrightarrow> R b c \<Longrightarrow> R a c"
    and list: "\<And>u w. R w (snd (List sourceService u w))"
    and download: "\<And>object w. R w (snd (Download sourceService object w))"
    and storage: "\<And>u w. R w (snd (StorageObject destinationService u w))"
    and modify: "\<And>h reader w. modifyContentHandler = Some h \<Longrightarrow> R w (snd (h reader w))"
    and handler: "\<And>object reader u w. R w (snd (copyHandler object reader destinationService u w))"
  shows "R w w'"
  using walk
proof (rule copyStorageContent_induct
    [where Q = "\<lambda>w r w' cs. R w w'" and L = "\<lambda>objects w r w' cs. R w w'"
      and C = "\<lambda>object w r w' cs. R w w'", rotated -1])
  fix subPath object u w r w' cs
  assume c: "copyContent tb sourceService destinationService destinationURL
      modifyContentHandler subPath copyHandler object u w = (r, w', cs)"
  obtain a w1 where d: "Download sourceService object w = (a, w1)"
    by (cases "Download sourceService object w")
  with download [of w object] have r1: "R w w1" by simp
  show "R w w'"
  proof (cases a)
    case (Inl err)
    with c d r1 show ?thesis by (simp add: copyContent_def)
  next
    case (Inr reader)
    obtain m w2 cs2 where mc: "modifyContent modifyContentHandler object u reader w1 = (m, w2, cs2)"
      by (cases "modifyContent modifyContentHandler object u reader w1")
    have r2: "R w1 w2"
    proof (cases modifyContentHandler)
      case None
      with mc show ?thesis by (simp add: modifyContent_def refl)
    next
      case (Some h)
      from modify [OF Some] have "R w1 (snd (h x w1))" for x .
      with mc Some show ?thesis
        by (auto simp: modifyContent_def refl split: sum.splits prod.splits)
          (metis snd_conv)+
    qed
    show ?thesis
    proof (cases m)
      case (Inl err)
      with c d Inr mc r1 r2 show ?thesis by (auto simp: copyContent_def intro: trans)
    next
      case m: (Inr reader')
      obtain d' w3 cs3 where t: "(if subPath = [] then
            topLevelDestination tb destinationService destinationURL object u w2
          else (u, w2, [])) = (d', w3, cs3)"
        by (cases "if subPath = [] then
            topLevelDestination tb destinationService destinationURL object u w2
          else (u, w2, [])")
      have r3: "R w2 w3"
      proof (cases "subPath = [] \<and> \<not> HasSuffix u ''/''")
        case True
        with t storage [of w2 u] show ?thesis
          by (auto simp: topLevelDestination_def Let_def split: prod.splits)
      next
        case False
        with t show ?thesis
          by (auto simp: topLevelDestination_def Let_def refl split: if_splits)
      qed
      from handler [of w3 object reader' d'] c d Inr mc m t
      have "R w3 w'"
        by (auto simp: copyContent_def split: prod.splits)
      with r1 r2 r3 show ?thesis by (blast intro: trans)
    qed
  qed
next
  fix u w err w'
  assume "List sourceService u w = (Inl err, w')"
  with list [of w u] show "R w w'" by simp
next
  fix u w objects w1 r w' cs
  assume "List sourceService u w = (Inr objects, w1)" and "R w1 w'"
  with list [of w u] show "R w w'" by (auto intro: trans)
qed (auto intro: refl trans)


lemma written_refl: "written method a a"
  by (simp add: written_def)

lemma written_trans: "written method a b \<Longrightarrow> written method b c \<Longrightarrow> written method a c"
  by (auto simp: written_def)

lemma getArchiveCopyHandler_written:
  "written Deflate (archive w)
     (archive (snd (getArchiveCopyHandler tb parentURL object reader destinationService u w)))"
  by (auto simp: getArchiveCopyHandler_def FileInfoHeader_def CreateHeader_def io_Copy_def
      written_def Let_def split: sum.splits prod.splits)

lemma getArchiveCopyHandlerWithFilter_written:
  "written Store (archive w)
     (archive (snd (getArchiveCopyHandlerWithFilter tb parentURL predicate object reader
        destinationService u w)))"
  by (auto simp: getArchiveCopyHandlerWithFilter_def FileInfoHeader_def CreateHeader_def
      io_Copy_def written_def Let_def split: sum.splits prod.splits)

lemma archive_walk_written:
  fixes service :: "'w Service"
  assumes "copyStorageContent fuel tb (onBackend service) sourceURL NewMemoryService
      destinationURL None subPath copyHandler w = Some (r, w', cs)"
    and "\<And>object reader u w.
      written method (archive w) (archive (snd (copyHandler object reader NewMemoryService u w)))"
  shows "written method (archive w) (archive w')"
  using assms(1)
proof (rule walk_world [where R = "\<lambda>w w'. written method (archive w) (archive w')"])
  show "\<And>u w. written method (archive w) (archive (snd (List (onBackend service) u w)))"
    by (simp add: onBackend_def written_refl split: prod.splits)
  show "\<And>object w. written method (archive w)
      (archive (snd (Download (onBackend service) object w)))"
    by (simp add: onBackend_def written_refl split: prod.splits)
  show "\<And>u w. written method (archive w)
      (archive (snd (StorageObject (NewMemoryService :: 'w archiveWorld Service) u w)))"
    by (simp add: NewMemoryService_def memoryService_def written_refl)
qed (auto intro: written_refl written_trans assms(2))

text \<open>
  Claim C9. Whatever \<^const>\<open>Archive\<close> answers, the entries it has added to the writer all
  have the method \<^const>\<open>Deflate\<close>, and those that \<^const>\<open>ArchiveWithFilter\<close> has added all
  have the method \<^const>\<open>Store\<close>; the entries that were there before are untouched.
\<close>

theorem archive_methods:
  "(Archive fuel tb service u writer b = Some (r, b', writer', cs)
      \<longrightarrow> written Deflate writer writer')
   \<and> (ArchiveWithFilter fuel tb service u writer predicate b = Some (r, b', writer', cs)
      \<longrightarrow> written Store writer writer')"
proof (intro conjI impI)
  assume "Archive fuel tb service u writer b = Some (r, b', writer', cs)"
  then obtain r0 w' where walk: "copyStorageContent fuel tb (onBackend service) u
      NewMemoryService ''mem:///dev/nul'' None [] (getArchiveCopyHandler tb ''mem:///dev/nul'')
      \<lparr>backend = b, archive = writer, memory = []\<rparr> = Some (r0, w', cs)"
    and aw: "archive w' = writer'"
    by (auto simp: Archive_def Copy_def archiveOutcome_def Let_def
        split: option.splits prod.splits)
  have "written Deflate (archive \<lparr>backend = b, archive = writer, memory = []\<rparr>) (archive w')"
    by (rule archive_walk_written [OF walk]) (rule getArchiveCopyHandler_written)
  with aw show "written Deflate writer writer'" by simp
next
  assume "ArchiveWithFilter fuel tb service u writer predicate b = Some (r, b', writer', cs)"
  then obtain r0 w' where walk: "copyStorageContent fuel tb (onBackend service) u
      NewMemoryService ''mem:///dev/nul'' None []
      (getArchiveCopyHandlerWithFilter tb ''mem:///dev/nul'' predicate)
      \<lparr>backend = b, archive = writer, memory = []\<rparr> = Some (r0, w', cs)"
    and aw: "archive w' = writer'"
    by (auto simp: ArchiveWithFilter_def Copy_def archiveOutcome_def Let_def
        split: option.splits prod.splits)
  have "written Store (archive \<lparr>backend = b, archive = writer, memory = []\<rparr>) (archive w')"
    by (rule archive_walk_written [OF walk]) (rule getArchiveCopyHandlerWithFilter_written)
  with aw show "written Store writer writer'" by simp
qed

theorem archive_methods_witness:
  "Archive 2 goToolbox (tableService srcListings srcContents) ''mem:///src''
     \<lparr>entries = [], closed = False\<rparr> ()
   = Some (None, (),
       \<lparr>entries = [zipEntry ''/a.txt'' Deflate ''hello'', zipEntry ''/sub/b.txt'' Deflate ''world''],
        closed = False\<rparr>, archiveCalls)
   \<and> written Deflate \<lparr>entries = [], closed = False\<rparr>
       \<lparr>entries = [zipEntry ''/a.txt'' Deflate ''hello'', zipEntry ''/sub/b.txt'' Deflate ''world''],
        closed = False\<rparr>
   \<and> ArchiveWithFilter 2 goToolbox (tableService srcListings srcContents) ''mem:///src''
     \<lparr>entries = [], closed = False\<rparr> (\<lambda>object. URL object \<noteq> ''mem:///src/a.txt'') ()
   = Some (None, (),
       \<lparr>entries = [zipEntry ''sub/b.txt'' Store ''world''], closed = False\<rparr>, archiveCalls)
   \<and> written Store \<lparr>entries = [], closed = False\<rparr>
       \<lparr>entries = [zipEntry ''sub/b.txt'' Store ''world''], closed = False\<rparr>"
proof -
  have a: "Archive 2 goToolbox (tableService srcListings srcContents) ''mem:///src''
     \<lparr>entries = [], closed = False\<rparr> ()
   = Some (None, (),
       \<lparr>entries = [zipEntry ''/a.txt'' Deflate ''hello'', zipEntry ''/sub/b.txt'' Deflate ''world''],
        closed = False\<rparr>, archiveCalls)"
    by code_simp
  have f: "ArchiveWithFilter 2 goToolbox (tableService srcListings srcContents) ''mem:///src''
     \<lparr>entries = [], closed = False\<rparr> (\<lambda>object. URL object \<noteq> ''mem:///src/a.txt'') ()
   = Some (None, (),
       \<lparr>entries = [zipEntry ''sub/b.txt'' Store ''world''], closed = False\<rparr>, archiveCalls)"
    by code_simp
  from archive_methods [THEN conjunct1, THEN mp, OF a]
    archive_methods [THEN conjunct2, THEN mp, OF f] a f
  show ?thesis by simp
qed

text \<open>
  Claim C5 fails on the code. Archiving the folder \<^verbatim>\<open>mem:///src\<close> names the entries
  \<^verbatim>\<open>/a.txt\<close> and \<^verbatim>\<open>/sub/b.txt\<close>: the handler of \<^const>\<open>Archive\<close> cuts the parent URL off the
  destination and keeps the slash that follows it. The handler of
  \<^const>\<open>ArchiveWithFilter\<close> removes that slash (lines 187 to 189) and names the entries
  \<^verbatim>\<open>a.txt\<close> and \<^verbatim>\<open>sub/b.txt\<close>, the relative paths.
\<close>

theorem archive_names_keep_slash:
  "Archive 2 goToolbox (tableService srcListings srcContents) ''mem:///src''
     \<lparr>entries = [], closed = False\<rparr> ()
   = Some (None, (),
       \<lparr>entries = [zipEntry ''/a.txt'' Deflate ''hello'', zipEntry ''/sub/b.txt'' Deflate ''world''],
        closed = False\<rparr>, archiveCalls)
   \<and> ArchiveWithFilter 2 goToolbox (tableService srcListings srcContents) ''mem:///src''
     \<lparr>entries = [], closed = False\<rparr> (\<lambda>object. True) ()
   = Some (None, (),
       \<lparr>entries = [zipEntry ''a.txt'' Store ''hello'', zipEntry ''sub/b.txt'' Store ''world''],
        closed = False\<rparr>, archiveCalls)"
  by code_simp

section \<open>Copying a folder tree\<close>

subsection \<open>More about the string functions\<close>










subsection \<open>The walk over a tree\<close>

























end
